theory Spec2Isabelle
  imports Main "HOL-Library.Word" "HOL-Library.AList"
begin

section \<open>JavaScript strings\<close>

text \<open>
  A JavaScript string is a sequence of UTF-16 code units. The regular expression of
  \<^verbatim>\<open>extractPluginName\<close> has no \<^verbatim>\<open>u\<close> flag, so it also works on code units.
  String literals of the source are written \<open>js ''...''\<close>.
\<close>

type_synonym jschar = "16 word"
type_synonym jsstring = "jschar list"

definition js :: "string \<Rightarrow> jsstring" where
  "js s = map of_char s"

definition slash :: jschar where "slash = 0x2F"
definition colon :: jschar where "colon = 0x3A"
definition at_sign :: jschar where "at_sign = 0x40"
definition bang :: jschar where "bang = 0x21"

text \<open>
  The line terminators of ECMAScript: LF, CR, LINE SEPARATOR and PARAGRAPH SEPARATOR.
  Without the \<^verbatim>\<open>s\<close> flag the regular expression's \<^verbatim>\<open>.\<close> matches every code unit
  but these.
\<close>

definition line_terminator :: "jschar \<Rightarrow> bool" where
  "line_terminator c = (c = 0x0A \<or> c = 0x0D \<or> c = 0x2028 \<or> c = 0x2029)"

datatype js_error = Error jsstring | TypeError jsstring

text \<open>\<^verbatim>\<open>s.includes(sub)\<close>: \<open>sub\<close> occurs in \<open>s\<close> at some position.\<close>

fun js_includes :: "jsstring \<Rightarrow> jsstring \<Rightarrow> bool" where
  "js_includes [] sub = (sub = [])"
| "js_includes (c # cs) sub = (take (length sub) (c # cs) = sub \<or> js_includes cs sub)"

text \<open>\<^verbatim>\<open>s.split(sep)\<close> for a separator of one code unit.\<close>

fun js_split :: "jschar \<Rightarrow> jsstring \<Rightarrow> jsstring list" where
  "js_split sep [] = [[]]"
| "js_split sep (c # cs) =
     (if c = sep then [] # js_split sep cs
      else (case js_split sep cs of
              [] \<Rightarrow> [[c]]
            | p # ps \<Rightarrow> (c # p) # ps))"

text \<open>\<^verbatim>\<open>xs[0]\<close>: \<^verbatim>\<open>undefined\<close> on an empty array.\<close>

definition first_elem :: "'a list \<Rightarrow> 'a option" where
  "first_elem xs = (case xs of [] \<Rightarrow> None | x # _ \<Rightarrow> Some x)"

section \<open>Canonical identifier extraction\<close>

text \<open>
  \<^verbatim>\<open>ref.match(/\/([^/:@]+)(?:[:@].*)?$/)\<close>, as the backtracking matcher runs it.

  \<open>name_char\<close> is the class \<^verbatim>\<open>[^/:@]\<close>. \<open>tail_ok t\<close> is the rest of the pattern,
  \<^verbatim>\<open>(?:[:@].*)?$\<close>, on the input \<open>t\<close> left after the group: the optional part taken
  (one of \<^verbatim>\<open>:\<close> and \<^verbatim>\<open>@\<close>, then \<^verbatim>\<open>.*\<close> up to the end of the input, which succeeds
  when no line terminator is in the way), or skipped, which needs the end of input at once.
  \<open>try_group n t\<close> gives the group \<open>n\<close> code units, the greedy \<^verbatim>\<open>+\<close> trying the
  longest run first and backing off one unit at a time, never below one.
  \<open>match_at\<close> is one attempt at a start position, \<open>regex_match\<close> the scan of the start
  positions from the left; the result is capture group 1 of the first match, \<open>None\<close> is
  \<^verbatim>\<open>null\<close>.
\<close>

definition name_char :: "jschar \<Rightarrow> bool" where
  "name_char c = (c \<noteq> slash \<and> c \<noteq> colon \<and> c \<noteq> at_sign)"

definition tail_ok :: "jsstring \<Rightarrow> bool" where
  "tail_ok t =
     (case t of
        [] \<Rightarrow> True
      | c # u \<Rightarrow> (c = colon \<or> c = at_sign) \<and> list_all (\<lambda>d. \<not> line_terminator d) u)"

fun try_group :: "nat \<Rightarrow> jsstring \<Rightarrow> jsstring option" where
  "try_group 0 t = None"
| "try_group (Suc n) t =
     (if tail_ok (drop (Suc n) t) then Some (take (Suc n) t) else try_group n t)"

definition match_at :: "jsstring \<Rightarrow> jsstring option" where
  "match_at s =
     (case s of
        [] \<Rightarrow> None
      | c # t \<Rightarrow> if c = slash then try_group (length (takeWhile name_char t)) t else None)"

fun regex_match :: "jsstring \<Rightarrow> jsstring option" where
  "regex_match [] = None"
| "regex_match (c # cs) =
     (case match_at (c # cs) of
        Some g \<Rightarrow> Some g
      | None \<Rightarrow> regex_match cs)"

text \<open>
  \<^verbatim>\<open>extractPluginName\<close>. \<^verbatim>\<open>ref\<close> is \<^verbatim>\<open>packageRef.split("!")[0]\<close> when the reference
  has a \<^verbatim>\<open>!\<close>; were that \<^verbatim>\<open>undefined\<close>, \<^verbatim>\<open>ref.match\<close> would raise a TypeError.
  \<^verbatim>\<open>match?.[1] || packageRef\<close> falls back to the whole reference when there is no match
  or the group is the empty string.
\<close>

definition extractPluginName :: "jsstring \<Rightarrow> js_error + jsstring" where
  "extractPluginName packageRef =
     (let ref = (if js_includes packageRef [bang]
                 then first_elem (js_split bang packageRef)
                 else Some packageRef)
      in case ref of
           None \<Rightarrow> Inl (TypeError (js ''Cannot read properties of undefined''))
         | Some r \<Rightarrow>
             (case regex_match r of
                None \<Rightarrow> Inr packageRef
              | Some g \<Rightarrow> if g = [] then Inr packageRef else Inr g))"

text \<open>
  The words of the specification, for comparison with the code: the last
  \<^verbatim>\<open>/\<close>-delimited segment of a reference, and that segment without the suffix that
  starts at its first \<^verbatim>\<open>:\<close> or \<^verbatim>\<open>@\<close>.
\<close>

definition lastSegment :: "jsstring \<Rightarrow> jsstring" where
  "lastSegment r = last (js_split slash r)"

definition stripSuffix :: "jsstring \<Rightarrow> jsstring" where
  "stripSuffix s = takeWhile (\<lambda>c. c \<noteq> colon \<and> c \<noteq> at_sign) s"

definition lastSegmentStripped :: "jsstring \<Rightarrow> jsstring" where
  "lastSegmentStripped r = stripSuffix (lastSegment r)"

text \<open>
  A description of inputs, used in hypotheses only: somewhere in the string a \<^verbatim>\<open>/\<close> is
  followed by a non-empty run of name characters and then by \<^verbatim>\<open>:\<close> or \<^verbatim>\<open>@\<close>, as in
  \<^verbatim>\<open>//localhost:5000/\<close>.
\<close>

fun tagged_segment :: "jsstring \<Rightarrow> bool" where
  "tagged_segment [] = False"
| "tagged_segment (c # t) =
     ((c = slash \<and> takeWhile name_char t \<noteq> [] \<and>
       (case dropWhile name_char t of [] \<Rightarrow> False | d # _ \<Rightarrow> d = colon \<or> d = at_sign))
      \<or> tagged_segment t)"

section \<open>Configuration values and deep merge\<close>

text \<open>
  A value of a parsed YAML document, or of a configuration. A mapping keeps its keys
  in insertion order; \<open>map_of\<close> reads a key. \<open>JNum n\<close> is a number by its integer
  value and \<open>JNaN\<close> is NaN: the code under study only tests a number for truthiness,
  and a number with a fraction is truthy like any other non-zero number. The timestamps
  and binary values that the YAML parser can also produce are left out; for this code
  they are truthy values that are neither strings nor mappings, as an array is.
\<close>

datatype jsval =
    JNull
  | JBool bool
  | JNum int
  | JNaN
  | JStr jsstring
  | JArr "jsval list"
  | JObj "(jsstring \<times> jsval) list"

type_synonym jsobject = "(jsstring \<times> jsval) list"

text \<open>
  Modelled from the spec: \<^verbatim>\<open>deepMerge\<close> is imported from \<^verbatim>\<open>./merge-yamls.js\<close>, which is
  not among the source files. The specification's words: mappings merge key by key,
  recursively; for any key where one side holds a non-mapping value (scalar, list, null)
  the override side's value wins outright, with no list concatenation and no coercion;
  merging with the empty mapping gives the base back. A key of one side only keeps its
  value. The result lists the keys of the base first, then the keys only the override has.
\<close>

fun deepMerge :: "jsobject \<Rightarrow> jsobject \<Rightarrow> jsobject"
  and mergeValue :: "jsval \<Rightarrow> jsval \<Rightarrow> jsval" where
  "deepMerge base override =
     map (\<lambda>(k, v). (k, case map_of override k of None \<Rightarrow> v | Some w \<Rightarrow> mergeValue v w)) base
     @ filter (\<lambda>(k, w). map_of base k = None) override"
| "mergeValue (JObj b) (JObj u) = JObj (deepMerge b u)"
| "mergeValue v w = w"

text \<open>Reading a value by a path of keys, through nested mappings.\<close>

fun lookup_path :: "jsobject \<Rightarrow> jsstring list \<Rightarrow> jsval option" where
  "lookup_path m [] = None"
| "lookup_path m [k] = map_of m k"
| "lookup_path m (k # k' # ks) =
     (case map_of m k of Some (JObj m') \<Rightarrow> lookup_path m' (k' # ks) | _ \<Rightarrow> None)"

fun is_mapping :: "jsval \<Rightarrow> bool" where
  "is_mapping (JObj m) = True"
| "is_mapping v = False"

section \<open>Values at run time\<close>

text \<open>
  The result of \<^verbatim>\<open>yaml.load\<close> is cast to \<^verbatim>\<open>PackageCRD\<close> without a check, so what
  \<^verbatim>\<open>parseMetadataFile\<close> reads from it is whatever the file holds. A value that may be
  \<^verbatim>\<open>undefined\<close> is a \<open>jsval option\<close>, \<open>None\<close> being \<^verbatim>\<open>undefined\<close>.

  \<open>falsy\<close> is JavaScript's falsiness; \<open>js_not x\<close> is \<^verbatim>\<open>!x\<close>.
  \<open>opt_prop x p\<close> is \<^verbatim>\<open>x?.p\<close> for a property name \<open>p\<close> that no prototype defines, as
  the five names read here: only a mapping has such a property.
  \<open>opt_index0 x\<close> is \<^verbatim>\<open>x?.[0]\<close>: the first element of an array, the first code unit of a
  string, the property \<^verbatim>\<open>0\<close> of a mapping.
  \<open>value_or_empty x\<close> is \<^verbatim>\<open>x || ""\<close>.
\<close>

fun falsy :: "jsval \<Rightarrow> bool" where
  "falsy JNull = True"
| "falsy (JBool b) = (\<not> b)"
| "falsy (JNum n) = (n = 0)"
| "falsy JNaN = True"
| "falsy (JStr s) = (s = [])"
| "falsy (JArr xs) = False"
| "falsy (JObj m) = False"

definition js_not :: "jsval option \<Rightarrow> bool" where
  "js_not x = (case x of None \<Rightarrow> True | Some v \<Rightarrow> falsy v)"

definition opt_prop :: "jsval option \<Rightarrow> jsstring \<Rightarrow> jsval option" where
  "opt_prop x p = (case x of Some (JObj m) \<Rightarrow> map_of m p | _ \<Rightarrow> None)"

definition opt_index0 :: "jsval option \<Rightarrow> jsval option" where
  "opt_index0 x =
     (case x of
        Some (JArr xs) \<Rightarrow> first_elem xs
      | Some (JStr s) \<Rightarrow> (case s of [] \<Rightarrow> None | c # _ \<Rightarrow> Some (JStr [c]))
      | Some (JObj m) \<Rightarrow> map_of m (js ''0'')
      | _ \<Rightarrow> None)"

definition value_or_empty :: "jsval option \<Rightarrow> jsval" where
  "value_or_empty x = (case x of None \<Rightarrow> JStr [] | Some v \<Rightarrow> if falsy v then JStr [] else v)"

text \<open>
  The call \<^verbatim>\<open>extractPluginName(metadata.packagePath)\<close> of \<^verbatim>\<open>parseAllMetadataFiles\<close>,
  whose argument comes from the file. A string goes through the function. A value of
  another type raises a TypeError at the first method it lacks: \<^verbatim>\<open>includes\<close>, or for an
  array, which has \<^verbatim>\<open>includes\<close>, \<^verbatim>\<open>split\<close> when \<^verbatim>\<open>"!"\<close> is one of its elements and
  \<^verbatim>\<open>match\<close> otherwise.
\<close>

definition extractPluginName_untyped :: "jsval \<Rightarrow> js_error + jsstring" where
  "extractPluginName_untyped packageRef =
     (case packageRef of
        JStr s \<Rightarrow> extractPluginName s
      | JArr xs \<Rightarrow>
          if JStr [bang] \<in> set xs
          then Inl (TypeError (js ''packageRef.split is not a function''))
          else Inl (TypeError (js ''ref.match is not a function''))
      | _ \<Rightarrow> Inl (TypeError (js ''packageRef.includes is not a function'')))"

section \<open>Data model\<close>

text \<open>
  The interfaces of the source. \<open>PluginMetadata\<close> has the fields \<^verbatim>\<open>packagePath\<close>,
  \<^verbatim>\<open>pluginConfig\<close>, \<^verbatim>\<open>packageName\<close> and \<^verbatim>\<open>sourceFile\<close>; the two that share a name with
  a field of another interface carry the prefix \<open>md_\<close>. The fields an index signature
  admits beside the declared ones are \<open>entry_other\<close> and \<open>config_other\<close>; the field
  \<^verbatim>\<open>includes\<close> is \<open>includes_field\<close>.

  The type parameters are the types of the values that come from a descriptor file.
  At the parameter types of the exported functions a package reference is a string and a
  configuration is a mapping. In the records \<^verbatim>\<open>parseMetadataFile\<close> builds, and in the
  document \<^verbatim>\<open>generateDynamicPluginsConfigFromMetadata\<close> builds from them, they are the
  values the file holds, of any type.
\<close>

record ('p, 'c, 'n) PluginMetadata =
  packagePath :: 'p
  md_pluginConfig :: 'c
  md_packageName :: 'n
  sourceFile :: jsstring

record ('p, 'c) PluginEntry =
  package :: 'p
  disabled :: "bool option"
  pluginConfig :: "'c option"
  entry_other :: jsobject

record ('p, 'c) DynamicPluginsConfig =
  plugins :: "('p, 'c) PluginEntry list option"
  includes_field :: "jsstring list option"
  config_other :: jsobject

text \<open>
  The \<^verbatim>\<open>Map<string, PluginMetadata>\<close>: keys in insertion order, each key once.
  \<^verbatim>\<open>set\<close> is \<open>AList.update\<close> (an existing key keeps its place and takes the new value,
  a new key goes to the end), \<^verbatim>\<open>get\<close> is \<open>map_of\<close>, \<^verbatim>\<open>size\<close> is \<open>length\<close>.
  \<open>metadata_map\<close> is the map at the parameter type of \<^verbatim>\<open>injectMetadataConfig\<close>, which
  reads only the \<^verbatim>\<open>pluginConfig\<close> of a record; \<open>loaded_map\<close> is the map as
  \<^verbatim>\<open>parseAllMetadataFiles\<close> builds it.
\<close>

type_synonym ('p, 'n) metadata_map = "(jsstring \<times> ('p, jsobject, 'n) PluginMetadata) list"

type_synonym loaded_metadata = "(jsval, jsval, jsval) PluginMetadata"

type_synonym loaded_map = "(jsstring \<times> loaded_metadata) list"

type_synonym plugins_config = "(jsstring, jsobject) DynamicPluginsConfig"

section \<open>The world outside\<close>

text \<open>
  What the module reads from its surroundings: two environment variables, the path
  functions, the file system, the glob and the YAML parser. \<^verbatim>\<open>fs.readFile\<close> and
  \<^verbatim>\<open>yaml.load\<close> may raise; \<^verbatim>\<open>yaml.load\<close> returns any value, or \<^verbatim>\<open>undefined\<close> for an
  empty document. The path functions, \<^verbatim>\<open>fs.existsSync\<close>,
  \<^verbatim>\<open>fs.statSync(p).isDirectory()\<close> and the glob are taken to return. Console output is
  not modelled.

  \<open>inject_untyped\<close> is what \<^verbatim>\<open>injectMetadataConfig\<close> returns when it is handed a map
  that is not of its parameter type, one with a record whose \<^verbatim>\<open>pluginConfig\<close> is not a
  mapping: that rests on what \<^verbatim>\<open>deepMerge\<close> does with such a base, which the source
  files do not tell.
\<close>

record world =
  env_RHDH_SKIP_PLUGIN_METADATA_INJECTION :: "jsstring option"
  env_JOB_NAME :: "jsstring option"
  path_resolve :: "jsstring \<Rightarrow> jsstring"
  path_join :: "jsstring \<Rightarrow> jsstring \<Rightarrow> jsstring"
  fs_existsSync :: "jsstring \<Rightarrow> bool"
  fs_isDirectory :: "jsstring \<Rightarrow> bool"
  glob :: "jsstring \<Rightarrow> jsstring list"
  fs_readFile :: "jsstring \<Rightarrow> js_error + jsstring"
  yaml_load :: "jsstring \<Rightarrow> js_error + jsval option"
  inject_untyped :: "plugins_config \<Rightarrow> loaded_map \<Rightarrow> js_error + plugins_config"

text \<open>
  Truthiness of an environment variable (\<^verbatim>\<open>undefined\<close> and the empty string are
  falsy), and \<^verbatim>\<open>a || b\<close> on it.
\<close>

definition truthy :: "jsstring option \<Rightarrow> bool" where
  "truthy a = (case a of None \<Rightarrow> False | Some v \<Rightarrow> v \<noteq> [])"

definition or_else :: "jsstring option \<Rightarrow> jsstring \<Rightarrow> jsstring" where
  "or_else a b = (case a of None \<Rightarrow> b | Some v \<Rightarrow> if v = [] then b else v)"

section \<open>Gating policy\<close>

definition shouldInjectPluginMetadata :: "world \<Rightarrow> bool" where
  "shouldInjectPluginMetadata w =
     (if truthy (env_RHDH_SKIP_PLUGIN_METADATA_INJECTION w) then False
      else let jobName = or_else (env_JOB_NAME w) []
           in if js_includes jobName (js ''periodic-'') then False else True)"

section \<open>Metadata loader\<close>

definition DEFAULT_METADATA_PATH :: jsstring where
  "DEFAULT_METADATA_PATH = js ''../metadata''"

text \<open>A parameter with the default value \<^verbatim>\<open>DEFAULT_METADATA_PATH\<close>.\<close>

definition metadataPath_or_default :: "jsstring option \<Rightarrow> jsstring" where
  "metadataPath_or_default metadataPath =
     (case metadataPath of None \<Rightarrow> DEFAULT_METADATA_PATH | Some p \<Rightarrow> p)"

definition getMetadataDirectory :: "world \<Rightarrow> jsstring option \<Rightarrow> jsstring option" where
  "getMetadataDirectory w metadataPath =
     (let resolvedPath = path_resolve w (metadataPath_or_default metadataPath)
      in if fs_existsSync w resolvedPath \<and> fs_isDirectory w resolvedPath
         then Some resolvedPath
         else None)"

text \<open>
  \<^verbatim>\<open>parseMetadataFile\<close>: \<open>parseMetadataFile_try\<close> is the body of the \<^verbatim>\<open>try\<close> block,
  the \<^verbatim>\<open>catch\<close> turns whatever it raised into \<^verbatim>\<open>null\<close>. The two tests are
  \<^verbatim>\<open>!packagePath\<close> and \<^verbatim>\<open>!pluginConfig\<close>; a value that passes them goes into the record
  as it is, whatever its type. Such a value is defined, so the last branch of the
  \<open>case\<close> is never taken.
\<close>

definition parseMetadataFile_try :: "world \<Rightarrow> jsstring \<Rightarrow> js_error + loaded_metadata option" where
  "parseMetadataFile_try w filePath =
     (case fs_readFile w filePath of
        Inl e \<Rightarrow> Inl e
      | Inr text \<Rightarrow>
          (case yaml_load w text of
             Inl e \<Rightarrow> Inl e
           | Inr parsed \<Rightarrow>
               (let packagePath = opt_prop (opt_prop parsed (js ''spec'')) (js ''dynamicArtifact'');
                    packageName = opt_prop (opt_prop parsed (js ''spec'')) (js ''packageName'');
                    pluginConfig =
                      opt_prop (opt_index0 (opt_prop (opt_prop parsed (js ''spec''))
                                              (js ''appConfigExamples'')))
                        (js ''content'')
                in if js_not packagePath then Inr None
                   else if js_not pluginConfig then Inr None
                   else (case (packagePath, pluginConfig) of
                           (Some pp, Some cfg) \<Rightarrow>
                             Inr (Some \<lparr>packagePath = pp, md_pluginConfig = cfg,
                                        md_packageName = value_or_empty packageName,
                                        sourceFile = filePath\<rparr>)
                         | _ \<Rightarrow> Inr None))))"

definition parseMetadataFile :: "world \<Rightarrow> jsstring \<Rightarrow> js_error + loaded_metadata option" where
  "parseMetadataFile w filePath =
     (case parseMetadataFile_try w filePath of
        Inl e \<Rightarrow> Inr None
      | Inr r \<Rightarrow> Inr r)"

text \<open>
  The \<^verbatim>\<open>for\<close> loop of \<^verbatim>\<open>parseAllMetadataFiles\<close> over the files the glob returned. The
  call of \<^verbatim>\<open>extractPluginName\<close> is outside every \<^verbatim>\<open>try\<close>: what it raises ends the loop
  and the function.
\<close>

fun parseAllMetadataFiles_loop ::
  "world \<Rightarrow> jsstring list \<Rightarrow> loaded_map \<Rightarrow> js_error + loaded_map" where
  "parseAllMetadataFiles_loop w [] metadataMap = Inr metadataMap"
| "parseAllMetadataFiles_loop w (file # files) metadataMap =
     (case parseMetadataFile w file of
        Inl e \<Rightarrow> Inl e
      | Inr None \<Rightarrow> parseAllMetadataFiles_loop w files metadataMap
      | Inr (Some metadata) \<Rightarrow>
          (case extractPluginName_untyped (packagePath metadata) of
             Inl e \<Rightarrow> Inl e
           | Inr pluginName \<Rightarrow>
               parseAllMetadataFiles_loop w files (AList.update pluginName metadata metadataMap)))"

definition parseAllMetadataFiles :: "world \<Rightarrow> jsstring \<Rightarrow> js_error + loaded_map" where
  "parseAllMetadataFiles w metadataDir =
     (let pattern = path_join w metadataDir (js ''*.yaml'');
          files = glob w pattern
      in parseAllMetadataFiles_loop w files [])"

section \<open>Injection and generation\<close>

text \<open>\<^verbatim>\<open>Array.prototype.map\<close> with a callback that may raise: the first exception ends it.\<close>

fun map_result :: "('a \<Rightarrow> 'e + 'b) \<Rightarrow> 'a list \<Rightarrow> 'e + 'b list" where
  "map_result f [] = Inr []"
| "map_result f (x # xs) =
     (case f x of
        Inl e \<Rightarrow> Inl e
      | Inr y \<Rightarrow> (case map_result f xs of Inl e \<Rightarrow> Inl e | Inr ys \<Rightarrow> Inr (y # ys)))"

text \<open>The callback of \<^verbatim>\<open>injectMetadataConfig\<close>, applied to one plugin list entry.\<close>

definition augmentPlugin ::
  "('p, 'n) metadata_map \<Rightarrow> (jsstring, jsobject) PluginEntry
     \<Rightarrow> js_error + (jsstring, jsobject) PluginEntry" where
  "augmentPlugin metadataMap plugin =
     (case extractPluginName (package plugin) of
        Inl e \<Rightarrow> Inl e
      | Inr pluginName \<Rightarrow>
          (case map_of metadataMap pluginName of
             None \<Rightarrow> Inr plugin
           | Some metadata \<Rightarrow>
               (let mergedPluginConfig =
                      deepMerge (md_pluginConfig metadata)
                        (case pluginConfig plugin of None \<Rightarrow> [] | Some c \<Rightarrow> c)
                in Inr (plugin\<lparr>pluginConfig := Some mergedPluginConfig\<rparr>))))"

definition injectMetadataConfig ::
  "plugins_config \<Rightarrow> ('p, 'n) metadata_map \<Rightarrow> js_error + plugins_config" where
  "injectMetadataConfig dynamicPluginsConfig metadataMap =
     (case plugins dynamicPluginsConfig of
        None \<Rightarrow> Inr dynamicPluginsConfig
      | Some ps \<Rightarrow>
          (case map_result (augmentPlugin metadataMap) ps of
             Inl e \<Rightarrow> Inl e
           | Inr augmentedPlugins \<Rightarrow>
               Inr (dynamicPluginsConfig\<lparr>plugins := Some augmentedPlugins\<rparr>)))"

text \<open>
  The map \<^verbatim>\<open>parseAllMetadataFiles\<close> built, read at the parameter type of
  \<^verbatim>\<open>injectMetadataConfig\<close>: every \<^verbatim>\<open>pluginConfig\<close> has to be a mapping.
\<close>

fun as_metadata_map :: "loaded_map \<Rightarrow> (jsval, jsval) metadata_map option" where
  "as_metadata_map [] = Some []"
| "as_metadata_map ((k, metadata) # rest) =
     (case md_pluginConfig metadata of
        JObj c \<Rightarrow>
          (case as_metadata_map rest of
             None \<Rightarrow> None
           | Some typed \<Rightarrow>
               Some ((k, \<lparr>packagePath = packagePath metadata, md_pluginConfig = c,
                           md_packageName = md_packageName metadata,
                           sourceFile = sourceFile metadata\<rparr>) # typed))
      | _ \<Rightarrow> None)"

definition generateDynamicPluginsConfigFromMetadata ::
  "world \<Rightarrow> jsstring option \<Rightarrow> js_error + (jsval, jsval) DynamicPluginsConfig" where
  "generateDynamicPluginsConfigFromMetadata w metadataPath =
     (if \<not> shouldInjectPluginMetadata w
      then Inr \<lparr>plugins = Some [], includes_field = None, config_other = []\<rparr>
      else
        (case getMetadataDirectory w (Some (metadataPath_or_default metadataPath)) of
           None \<Rightarrow>
             Inl (Error (js ''[PluginMetadata] Cannot generate dynamic-plugins config: metadata directory not found at: ''
                         @ path_resolve w (metadataPath_or_default metadataPath)))
         | Some metadataDir \<Rightarrow>
             (case parseAllMetadataFiles w metadataDir of
                Inl e \<Rightarrow> Inl e
              | Inr metadataMap \<Rightarrow>
                  if length metadataMap = 0
                  then Inl (Error (js ''[PluginMetadata] Cannot generate dynamic-plugins config: no valid metadata files found in ''
                                   @ metadataDir))
                  else Inr \<lparr>plugins =
                              Some (map (\<lambda>(pluginName, metadata).
                                           \<lparr>package = packagePath metadata,
                                            disabled = Some False,
                                            pluginConfig = Some (md_pluginConfig metadata),
                                            entry_other = []\<rparr>)
                                      metadataMap),
                            includes_field = None, config_other = []\<rparr>)))"

definition loadAndInjectPluginMetadata ::
  "world \<Rightarrow> plugins_config \<Rightarrow> jsstring option \<Rightarrow> js_error + plugins_config" where
  "loadAndInjectPluginMetadata w dynamicPluginsConfig metadataPath =
     (if \<not> shouldInjectPluginMetadata w
      then Inr dynamicPluginsConfig
      else
        (case getMetadataDirectory w (Some (metadataPath_or_default metadataPath)) of
           None \<Rightarrow>
             Inl (Error (js ''[PluginMetadata] PR build requires metadata directory but not found at: ''
                         @ path_resolve w (metadataPath_or_default metadataPath)))
         | Some metadataDir \<Rightarrow>
             (case parseAllMetadataFiles w metadataDir of
                Inl e \<Rightarrow> Inl e
              | Inr metadataMap \<Rightarrow>
                  if length metadataMap = 0
                  then Inl (Error (js ''[PluginMetadata] PR build requires plugin metadata but no valid metadata files found in ''
                                   @ metadataDir))
                  else (case as_metadata_map metadataMap of
                          Some typed \<Rightarrow> injectMetadataConfig dynamicPluginsConfig typed
                        | None \<Rightarrow> inject_untyped w dynamicPluginsConfig metadataMap))))"

section \<open>Example inputs\<close>

text \<open>
  A metadata directory \<^verbatim>\<open>/work/metadata\<close> whose listing has five descriptor files:
  \<^verbatim>\<open>a.yaml\<close> and \<^verbatim>\<open>d.yaml\<close> both describe \<^verbatim>\<open>tech-radar\<close>, \<^verbatim>\<open>b.yaml\<close> cannot be read,
  \<^verbatim>\<open>c.yaml\<close> has no \<^verbatim>\<open>dynamicArtifact\<close>, and the first example of \<^verbatim>\<open>e.yaml\<close> has the
  empty mapping as its content. A sixth file, \<^verbatim>\<open>n.yaml\<close>, is not in the listing: its
  \<^verbatim>\<open>dynamicArtifact\<close> is the number 123. The plugins document lists one plugin the
  directory knows and one it does not.
\<close>

definition example_metadata :: "(jsstring, jsobject, jsstring) PluginMetadata" where
  "example_metadata =
     \<lparr>packagePath = js ''./dynamic-plugins/dist/tech-radar'',
      md_pluginConfig = [(js ''a'', JObj [(js ''x'', JNum 1), (js ''y'', JNum 2)])],
      md_packageName = js ''@backstage-community/plugin-tech-radar'',
      sourceFile = js ''/work/metadata/a.yaml''\<rparr>"

definition example_plugins :: "(jsstring, jsobject) PluginEntry list" where
  "example_plugins =
     [\<lparr>package = js ''oci://quay.io/rhdh/tech-radar:1.0'',
       disabled = Some False,
       pluginConfig = Some [(js ''a'', JObj [(js ''y'', JNum 99)])],
       entry_other = []\<rparr>,
      \<lparr>package = js ''./dynamic-plugins/dist/other'',
       disabled = None,
       pluginConfig = None,
       entry_other = [(js ''integrity'', JStr (js ''sha512-x''))]\<rparr>]"

definition example_config :: plugins_config where
  "example_config =
     \<lparr>plugins = Some example_plugins,
      includes_field = Some [js ''dynamic-plugins.default.yaml''],
      config_other = []\<rparr>"

text \<open>
  The document \<^verbatim>\<open>spec: { dynamicArtifact: ..., appConfigExamples: [{ content: ... }] }\<close>.
\<close>

definition example_crd :: "jsval \<Rightarrow> jsval \<Rightarrow> jsval" where
  "example_crd artifact cfg =
     JObj [(js ''spec'',
            JObj [(js ''dynamicArtifact'', artifact),
                  (js ''appConfigExamples'', JArr [JObj [(js ''content'', cfg)]])])]"

definition example_world :: world where
  "example_world =
     \<lparr>env_RHDH_SKIP_PLUGIN_METADATA_INJECTION = None,
      env_JOB_NAME = Some (js ''pull-ci-e2e''),
      path_resolve = (\<lambda>p. js ''/work/'' @ p),
      path_join = (\<lambda>d f. d @ slash # f),
      fs_existsSync = (\<lambda>p. p = js ''/work/metadata''),
      fs_isDirectory = (\<lambda>p. p = js ''/work/metadata''),
      glob = (\<lambda>pat. if pat = js ''/work/metadata/*.yaml''
                     then [js ''/work/metadata/a.yaml'', js ''/work/metadata/b.yaml'',
                           js ''/work/metadata/c.yaml'', js ''/work/metadata/d.yaml'',
                           js ''/work/metadata/e.yaml'']
                     else []),
      fs_readFile = (\<lambda>f.
         if f = js ''/work/metadata/a.yaml'' then Inr (js ''A'')
         else if f = js ''/work/metadata/c.yaml'' then Inr (js ''C'')
         else if f = js ''/work/metadata/d.yaml'' then Inr (js ''D'')
         else if f = js ''/work/metadata/e.yaml'' then Inr (js ''E'')
         else if f = js ''/work/metadata/n.yaml'' then Inr (js ''N'')
         else Inl (Error (js ''EACCES''))),
      yaml_load = (\<lambda>t.
         if t = js ''A''
         then Inr (Some (example_crd (JStr (js ''./dynamic-plugins/dist/tech-radar''))
                           (JObj [(js ''a'', JObj [(js ''x'', JNum 1), (js ''y'', JNum 2)])])))
         else if t = js ''C''
         then Inr (Some (JObj [(js ''spec'',
                                JObj [(js ''packageName'', JStr (js ''no-artifact'')),
                                      (js ''appConfigExamples'', JArr [])])]))
         else if t = js ''D''
         then Inr (Some (example_crd (JStr (js ''oci://quay.io/rhdh/tech-radar:1.2''))
                           (JObj [(js ''title'', JStr (js ''later''))])))
         else if t = js ''E''
         then Inr (Some (example_crd (JStr (js ''./dynamic-plugins/dist/empty'')) (JObj [])))
         else if t = js ''N''
         then Inr (Some (example_crd (JNum 123) (JObj [(js ''a'', JNum 1)])))
         else Inl (Error (js ''YAMLException''))),
      inject_untyped = (\<lambda>cfg m. Inr cfg)\<rparr>"

text \<open>The same directory with the listing \<^verbatim>\<open>a.yaml\<close>, \<^verbatim>\<open>n.yaml\<close>.\<close>

definition example_world_malformed :: world where
  "example_world_malformed =
     example_world\<lparr>glob := \<lambda>pat. [js ''/work/metadata/a.yaml'', js ''/work/metadata/n.yaml'']\<rparr>"

definition example_record_a :: loaded_metadata where
  "example_record_a =
     \<lparr>packagePath = JStr (js ''./dynamic-plugins/dist/tech-radar''),
      md_pluginConfig = JObj [(js ''a'', JObj [(js ''x'', JNum 1), (js ''y'', JNum 2)])],
      md_packageName = JStr [],
      sourceFile = js ''/work/metadata/a.yaml''\<rparr>"

definition example_record_d :: loaded_metadata where
  "example_record_d =
     \<lparr>packagePath = JStr (js ''oci://quay.io/rhdh/tech-radar:1.2''),
      md_pluginConfig = JObj [(js ''title'', JStr (js ''later''))],
      md_packageName = JStr [],
      sourceFile = js ''/work/metadata/d.yaml''\<rparr>"

definition example_record_e :: loaded_metadata where
  "example_record_e =
     \<lparr>packagePath = JStr (js ''./dynamic-plugins/dist/empty''),
      md_pluginConfig = JObj [],
      md_packageName = JStr [],
      sourceFile = js ''/work/metadata/e.yaml''\<rparr>"

definition example_record_n :: loaded_metadata where
  "example_record_n =
     \<lparr>packagePath = JNum 123,
      md_pluginConfig = JObj [(js ''a'', JNum 1)],
      md_packageName = JStr [],
      sourceFile = js ''/work/metadata/n.yaml''\<rparr>"

definition example_index :: "(jsstring, jsstring) metadata_map" where
  "example_index = [(js ''tech-radar'', example_metadata)]"

section \<open>Properties of the string functions\<close>

lemmas js_chars =
  js_def slash_def colon_def at_sign_def bang_def name_char_def line_terminator_def

lemmas extract_defs =
  extractPluginName_def first_elem_def match_at_def tail_ok_def
  lastSegmentStripped_def lastSegment_def stripSuffix_def

lemma js_includes_single: "js_includes s [c] \<longleftrightarrow> c \<in> set s"
  by (induction s) auto

lemma js_includes_iff: "js_includes s sub \<longleftrightarrow> (\<exists>p t. s = p @ sub @ t)"
proof (induction s)
  case Nil
  show ?case by auto
next
  case (Cons c cs)
  show ?case
  proof
    assume "js_includes (c # cs) sub"
    then consider "take (length sub) (c # cs) = sub" | "js_includes cs sub" by auto
    then show "\<exists>p t. c # cs = p @ sub @ t"
    proof cases
      case 1
      then have "c # cs = [] @ sub @ drop (length sub) (c # cs)"
        by (metis append_Nil append_take_drop_id)
      then show ?thesis by blast
    next
      case 2
      then obtain p t where "cs = p @ sub @ t" using Cons.IH by blast
      then have "c # cs = (c # p) @ sub @ t" by simp
      then show ?thesis by blast
    qed
  next
    assume "\<exists>p t. c # cs = p @ sub @ t"
    then obtain p t where pt: "c # cs = p @ sub @ t" by blast
    show "js_includes (c # cs) sub"
    proof (cases p)
      case Nil
      then have "take (length sub) (c # cs) = sub" using pt by simp
      then show ?thesis by simp
    next
      case (Cons d q)
      then have "cs = q @ sub @ t" using pt by simp
      then have "js_includes cs sub" using Cons.IH by blast
      then show ?thesis by simp
    qed
  qed
qed

lemma js_split_first: "first_elem (js_split sep s) = Some (takeWhile (\<lambda>c. c \<noteq> sep) s)"
  by (induction s) (auto simp: first_elem_def split: list.splits)

lemma name_char_not_tail: "name_char c \<Longrightarrow> \<not> tail_ok (c # u)"
  by (simp add: tail_ok_def name_char_def)

lemma try_group_short:
  "n < length (takeWhile name_char t) \<Longrightarrow> try_group n t = None"
proof (induction n)
  case 0
  show ?case by simp
next
  case (Suc n)
  let ?m = "length (takeWhile name_char t)"
  have lt: "Suc n < length t"
    using Suc.prems length_takeWhile_le [of name_char t] by linarith
  have "t ! Suc n = takeWhile name_char t ! Suc n"
    using Suc.prems by (simp add: takeWhile_nth)
  moreover have "name_char (takeWhile name_char t ! Suc n)"
    using Suc.prems nth_mem set_takeWhileD by metis
  ultimately have "name_char (t ! Suc n)" by simp
  moreover have "drop (Suc n) t = t ! Suc n # drop (Suc (Suc n)) t"
    using lt by (simp add: Cons_nth_drop_Suc)
  ultimately have "\<not> tail_ok (drop (Suc n) t)"
    using name_char_not_tail by simp
  then show ?case using Suc by simp
qed

lemma try_group_full:
  "try_group (length (takeWhile name_char t)) t =
     (if takeWhile name_char t \<noteq> [] \<and> tail_ok (dropWhile name_char t)
      then Some (takeWhile name_char t) else None)"
proof (cases "length (takeWhile name_char t)")
  case 0
  then show ?thesis by simp
next
  case (Suc n)
  have d: "drop (Suc n) t = dropWhile name_char t"
    using Suc by (metis dropWhile_eq_drop)
  have k: "take (Suc n) t = takeWhile name_char t"
    using Suc by (metis takeWhile_eq_take)
  have "try_group n t = None"
    using Suc try_group_short [of n t] by simp
  then show ?thesis using Suc d k by auto
qed

lemma match_at_Cons:
  "match_at (c # t) =
     (if c = slash \<and> takeWhile name_char t \<noteq> [] \<and> tail_ok (dropWhile name_char t)
      then Some (takeWhile name_char t) else None)"
  by (simp add: match_at_def try_group_full)

lemma regex_match_no_slash: "slash \<notin> set s \<Longrightarrow> regex_match s = None"
  by (induction s) (auto simp: match_at_Cons)

lemma regex_match_Some:
  "regex_match s = Some g \<Longrightarrow> g \<noteq> [] \<and> list_all name_char g \<and> set g \<subseteq> set s \<and> length g < length s"
proof (induction s)
  case Nil
  then show ?case by simp
next
  case (Cons c s)
  show ?case
  proof (cases "match_at (c # s)")
    case None
    then have "regex_match s = Some g" using Cons.prems by simp
    then show ?thesis using Cons.IH by auto
  next
    case (Some h)
    then have g: "g = takeWhile name_char s" and ne: "takeWhile name_char s \<noteq> []"
      using Cons.prems by (auto simp: match_at_Cons split: if_splits)
    have "list_all name_char g" unfolding g list_all_iff using set_takeWhileD by metis
    moreover have "set g \<subseteq> set s" unfolding g using set_takeWhileD by (metis subsetI)
    moreover have "length g \<le> length s" unfolding g by (rule length_takeWhile_le)
    ultimately show ?thesis using g ne by auto
  qed
qed

lemma takeWhile_absent: "x \<notin> set r \<Longrightarrow> takeWhile (\<lambda>c. c \<noteq> x) r = r"
  by (induction r) auto

lemma takeWhile_until: "x \<notin> set p \<Longrightarrow> takeWhile (\<lambda>c. c \<noteq> x) (p @ x # a) = p"
  by (induction p) auto

lemma extractPluginName_eq:
  "extractPluginName r =
     Inr (case regex_match (takeWhile (\<lambda>c. c \<noteq> bang) r) of None \<Rightarrow> r | Some g \<Rightarrow> g)"
proof -
  let ?p = "takeWhile (\<lambda>c. c \<noteq> bang) r"
  have ref: "(if js_includes r [bang] then first_elem (js_split bang r) else Some r) = Some ?p"
  proof (cases "bang \<in> set r")
    case True
    then show ?thesis by (simp add: js_includes_single js_split_first)
  next
    case False
    then show ?thesis by (simp add: js_includes_single takeWhile_absent)
  qed
  have "\<And>g. regex_match ?p = Some g \<Longrightarrow> g \<noteq> []"
    using regex_match_Some by blast
  then show ?thesis
    unfolding extractPluginName_def ref by (auto simp: Let_def split: option.splits)
qed

lemma js_split_ne: "js_split sep s \<noteq> []"
  by (induction s) (auto split: list.splits)

lemma js_split_no_sep: "sep \<notin> set s \<Longrightarrow> js_split sep s = [s]"
  by (induction s) auto

lemma js_split_append:
  "js_split sep (p @ sep # s) = js_split sep p @ js_split sep s"
proof (induction p)
  case Nil
  show ?case by simp
next
  case (Cons c p)
  obtain y ys where y: "js_split sep p = y # ys"
    using js_split_ne [of sep p] by (cases "js_split sep p") auto
  show ?case using Cons y by simp
qed

lemma last_js_split: "sep \<notin> set seg \<Longrightarrow> last (js_split sep (p @ sep # seg)) = seg"
  by (simp add: js_split_append js_split_no_sep js_split_ne)

lemma tail_ok_slash: "\<not> tail_ok (slash # u)"
  by (simp add: tail_ok_def slash_def colon_def at_sign_def)

lemma match_at_untagged:
  assumes "\<not> tagged_segment (c # p)"
  shows "match_at (c # p @ slash # seg) = None"
proof (cases "list_all name_char p")
  case True
  then have "takeWhile name_char (p @ slash # seg) = p" "dropWhile name_char (p @ slash # seg) = slash # seg"
    by (auto simp: list_all_iff takeWhile_append2 dropWhile_append2 name_char_def)
  then show ?thesis by (simp add: match_at_Cons tail_ok_slash)
next
  case False
  then obtain x where x: "x \<in> set p" "\<not> name_char x" by (auto simp: list_all_iff)
  then have tw: "takeWhile name_char (p @ slash # seg) = takeWhile name_char p"
    and dw: "dropWhile name_char (p @ slash # seg) = dropWhile name_char p @ slash # seg"
    by (auto simp: takeWhile_append1 dropWhile_append1)
  have ne: "dropWhile name_char p \<noteq> []" using x by (auto simp: dropWhile_eq_Nil_conv)
  then obtain d u where du: "dropWhile name_char p = d # u" by (cases "dropWhile name_char p") auto
  show ?thesis using assms tw dw du by (auto simp: match_at_Cons tail_ok_def)
qed

lemma regex_match_last_segment:
  "\<not> tagged_segment p \<Longrightarrow> slash \<notin> set seg \<Longrightarrow>
   regex_match (p @ slash # seg) = match_at (slash # seg)"
proof (induction p)
  case Nil
  then show ?case by (simp add: regex_match_no_slash split: option.splits)
next
  case (Cons c p)
  then show ?case using match_at_untagged [of c p seg] by simp
qed

lemma tagged_segment_append: "tagged_segment p \<Longrightarrow> tagged_segment (p @ s)"
proof (induction p)
  case Nil
  then show ?case by simp
next
  case (Cons c t)
  show ?case
  proof (cases "tagged_segment t")
    case True
    then show ?thesis using Cons.IH by simp
  next
    case False
    then obtain d u where h: "c = slash" "takeWhile name_char t \<noteq> []"
      "dropWhile name_char t = d # u" "d = colon \<or> d = at_sign"
      using Cons.prems by (auto split: list.splits)
    have "d \<in> set t" using h(3) set_dropWhileD [of d name_char t] by simp
    moreover have "\<not> name_char d" using h(4) by (auto simp: name_char_def)
    ultimately have "takeWhile name_char (t @ s) = takeWhile name_char t"
      "dropWhile name_char (t @ s) = dropWhile name_char t @ s"
      by (auto simp: takeWhile_append1 dropWhile_append1)
    then show ?thesis using h by simp
  qed
qed

lemma tail_ok_dropWhile:
  assumes "slash \<notin> set seg" "list_all (\<lambda>d. \<not> line_terminator d) (dropWhile name_char seg)"
  shows "tail_ok (dropWhile name_char seg)"
proof (cases "dropWhile name_char seg")
  case Nil
  show ?thesis unfolding tail_ok_def Nil by simp
next
  case (Cons d u)
  then have "\<not> name_char d" using hd_dropWhile [of name_char seg] by simp
  moreover have "d \<in> set seg" using Cons set_dropWhileD [of d name_char seg] by simp
  ultimately have "d = colon \<or> d = at_sign" using assms(1) by (auto simp: name_char_def)
  then show ?thesis using assms(2) Cons by (simp add: tail_ok_def)
qed

lemma stripSuffix_name: "slash \<notin> set seg \<Longrightarrow> stripSuffix seg = takeWhile name_char seg"
  unfolding stripSuffix_def by (rule takeWhile_cong) (auto simp: name_char_def)


section \<open>Properties of deep merge\<close>

lemma mergeValue_non_mapping: "\<not> is_mapping w \<Longrightarrow> mergeValue v w = w"
  by (cases v; cases w) auto

lemma mergeValue_non_mapping_base: "\<not> is_mapping v \<Longrightarrow> mergeValue v w = w"
  by (cases v; cases w) auto

lemma map_of_map_keyed:
  "map_of (map (\<lambda>(k, v). (k, f k v)) xs) k = map_option (f k) (map_of xs k)"
  by (induction xs) auto

lemma map_of_filter_key:
  "map_of (filter (\<lambda>(k, w). P k) xs) k = (if P k then map_of xs k else None)"
  by (induction xs) auto

lemma map_of_deepMerge:
  "map_of (deepMerge b u) k =
     (case map_of b k of
        None \<Rightarrow> map_of u k
      | Some v \<Rightarrow> Some (case map_of u k of None \<Rightarrow> v | Some w \<Rightarrow> mergeValue v w))"
proof -
  have "map_of (map (\<lambda>(k, v). (k, case map_of u k of None \<Rightarrow> v | Some w \<Rightarrow> mergeValue v w)) b) k
        = map_option (\<lambda>v. case map_of u k of None \<Rightarrow> v | Some w \<Rightarrow> mergeValue v w) (map_of b k)"
    by (rule map_of_map_keyed [where f = "\<lambda>k v. case map_of u k of None \<Rightarrow> v | Some w \<Rightarrow> mergeValue v w"])
  moreover have "map_of (filter (\<lambda>(k, w). map_of b k = None) u) k
        = (if map_of b k = None then map_of u k else None)"
    by (rule map_of_filter_key [where P = "\<lambda>k. map_of b k = None"])
  ultimately show ?thesis
    by (simp add: map_add_def split: option.splits)
qed

lemma deepMerge_empty: "deepMerge b [] = b"
proof -
  have "map (\<lambda>(k, v). (k, v)) b = b" by (induction b) auto
  then show ?thesis by simp
qed

lemma lookup_path_deepMerge:
  "lookup_path u path = Some v \<Longrightarrow> \<not> is_mapping v \<Longrightarrow> lookup_path (deepMerge b u) path = Some v"
proof (induction u path arbitrary: b rule: lookup_path.induct)
  case (1 m)
  then show ?case by simp
next
  case (2 m k)
  then show ?case
    by (simp only: lookup_path.simps map_of_deepMerge) (simp add: mergeValue_non_mapping split: option.splits)
next
  case (3 m k k' ks)
  from "3.prems" obtain m' where m': "map_of m k = Some (JObj m')"
    and lp: "lookup_path m' (k' # ks) = Some v"
    by (auto split: option.splits jsval.splits)
  show ?case
  proof (cases "map_of b k")
    case None
    then show ?thesis using m' lp by (simp only: lookup_path.simps map_of_deepMerge) simp
  next
    case (Some bv)
    show ?thesis
    proof (cases bv)
      case (JObj b')
      have "lookup_path (deepMerge b' m') (k' # ks) = Some v"
        using "3.IH" [OF m' refl lp "3.prems"(2)] .
      then show ?thesis using Some JObj m'
        by (simp only: lookup_path.simps map_of_deepMerge) simp
    qed (use Some m' lp in \<open>simp_all only: lookup_path.simps map_of_deepMerge, simp_all\<close>)
  qed
qed


declare deepMerge.simps [simp del]

section \<open>Properties of the loader\<close>

lemma parseMetadataFile_returns: "\<exists>r. parseMetadataFile w f = Inr r"
  by (simp add: parseMetadataFile_def split: sum.splits)

lemma extractPluginName_returns: "\<exists>n. extractPluginName r = Inr n"
  by (simp add: extractPluginName_eq)

lemma extractPluginName_untyped_returns:
  "(\<exists>n. extractPluginName_untyped v = Inr n) \<longleftrightarrow> (\<exists>s. v = JStr s)"
  using extractPluginName_returns
  by (cases v) (auto simp: extractPluginName_untyped_def)

lemma parseMetadataFile_record:
  assumes "fs_readFile w f = Inr t" and "yaml_load w t = Inr parsed"
  shows "parseMetadataFile w f =
     (let packagePath = opt_prop (opt_prop parsed (js ''spec'')) (js ''dynamicArtifact'');
          pluginConfig = opt_prop (opt_index0 (opt_prop (opt_prop parsed (js ''spec''))
                                                 (js ''appConfigExamples'')))
                           (js ''content'')
      in case packagePath of
           None \<Rightarrow> Inr None
         | Some pp \<Rightarrow>
             if falsy pp then Inr None
             else (case pluginConfig of
                     None \<Rightarrow> Inr None
                   | Some cfg \<Rightarrow>
                       if falsy cfg then Inr None
                       else Inr (Some \<lparr>packagePath = pp, md_pluginConfig = cfg,
                                        md_packageName =
                                          value_or_empty
                                            (opt_prop (opt_prop parsed (js ''spec''))
                                               (js ''packageName'')),
                                        sourceFile = f\<rparr>)))"
  using assms
  by (simp add: parseMetadataFile_def parseMetadataFile_try_def Let_def js_not_def
      split: option.splits)

lemma loop_returns:
  "(\<exists>m. parseAllMetadataFiles_loop w files acc = Inr m) \<longleftrightarrow>
   (\<forall>f\<in>set files. \<forall>md. parseMetadataFile w f = Inr (Some md) \<longrightarrow> (\<exists>s. packagePath md = JStr s))"
proof (induction files arbitrary: acc)
  case Nil
  show ?case by simp
next
  case (Cons f files)
  show ?case
  proof (cases "parseMetadataFile w f")
    case (Inl e)
    then show ?thesis using parseMetadataFile_returns [of w f] by simp
  next
    case (Inr r)
    show ?thesis
    proof (cases r)
      case None
      then show ?thesis using Inr Cons.IH by simp
    next
      case (Some md)
      show ?thesis
      proof (cases "extractPluginName_untyped (packagePath md)")
        case (Inl e)
        then have "\<not> (\<exists>s. packagePath md = JStr s)"
          using extractPluginName_untyped_returns [of "packagePath md"] by simp
        then show ?thesis using \<open>parseMetadataFile w f = Inr r\<close> Some Inl by auto
      next
        case (Inr n)
        then have "\<exists>s. packagePath md = JStr s"
          using extractPluginName_untyped_returns [of "packagePath md"] by blast
        then show ?thesis
          using \<open>parseMetadataFile w f = Inr r\<close> Some Inr Cons.IH [of "AList.update n md acc"]
          by simp
      qed
    qed
  qed
qed

lemma loop_distinct:
  "parseAllMetadataFiles_loop w files acc = Inr m \<Longrightarrow> distinct (map fst acc) \<Longrightarrow> distinct (map fst m)"
proof (induction files arbitrary: acc)
  case Nil
  then show ?case by simp
next
  case (Cons f files)
  then show ?case
    by (auto split: sum.splits option.splits simp: AList.distinct_update)
qed

lemma loop_empty:
  "parseAllMetadataFiles_loop w files acc = Inr m \<Longrightarrow>
   (m = [] \<longleftrightarrow> acc = [] \<and> (\<forall>f\<in>set files. parseMetadataFile w f = Inr None))"
proof (induction files arbitrary: acc)
  case Nil
  then show ?case by auto
next
  case (Cons f files)
  then show ?case
    by (auto split: sum.splits option.splits)
qed

lemma loop_lookup:
  assumes "parseAllMetadataFiles_loop w files acc = Inr m"
  shows "map_of m k = Some md \<longleftrightarrow>
     (\<exists>pre f post. files = pre @ f # post \<and>
        parseMetadataFile w f = Inr (Some md) \<and>
        extractPluginName_untyped (packagePath md) = Inr k \<and>
        (\<forall>g\<in>set post. \<forall>md'. parseMetadataFile w g = Inr (Some md') \<longrightarrow>
                                 extractPluginName_untyped (packagePath md') \<noteq> Inr k))
     \<or> (map_of acc k = Some md \<and>
        (\<forall>g\<in>set files. \<forall>md'. parseMetadataFile w g = Inr (Some md') \<longrightarrow>
                                 extractPluginName_untyped (packagePath md') \<noteq> Inr k))"
proof -
  define Y where "Y g x \<longleftrightarrow>
    parseMetadataFile w g = Inr (Some x) \<and> extractPluginName_untyped (packagePath x) = Inr k"
    for g x
  define quiet where "quiet gs \<longleftrightarrow> (\<forall>g\<in>set gs. \<forall>x. \<not> Y g x)" for gs
  define L where "L fs \<longleftrightarrow> (\<exists>pre g post. fs = pre @ g # post \<and> Y g md \<and> quiet post)" for fs
  have quiet_Cons: "quiet (f # fs) \<longleftrightarrow> (\<forall>x. \<not> Y f x) \<and> quiet fs" for f fs
    by (simp add: quiet_def)
  have L_Nil: "\<not> L []" by (simp add: L_def)
  have L_Cons: "L (f # fs) \<longleftrightarrow> (Y f md \<and> quiet fs) \<or> L fs" for f fs
  proof
    assume "L (f # fs)"
    then obtain pre g post where h: "f # fs = pre @ g # post" "Y g md" "quiet post"
      unfolding L_def by blast
    show "(Y f md \<and> quiet fs) \<or> L fs"
    proof (cases pre)
      case Nil
      then show ?thesis using h by auto
    next
      case (Cons a pre')
      then have "fs = pre' @ g # post" using h(1) by simp
      then show ?thesis using h(2,3) unfolding L_def by blast
    qed
  next
    assume "(Y f md \<and> quiet fs) \<or> L fs"
    then show "L (f # fs)"
    proof
      assume "Y f md \<and> quiet fs"
      then have "f # fs = [] @ f # fs \<and> Y f md \<and> quiet fs" by simp
      then show ?thesis unfolding L_def by blast
    next
      assume "L fs"
      then obtain pre g post where "fs = pre @ g # post" "Y g md" "quiet post"
        unfolding L_def by blast
      then have "f # fs = (f # pre) @ g # post \<and> Y g md \<and> quiet post" by simp
      then show ?thesis unfolding L_def by blast
    qed
  qed
  have main: "map_of m k = Some md \<longleftrightarrow> L files \<or> (map_of acc k = Some md \<and> quiet files)"
    using assms
  proof (induction files arbitrary: acc)
    case Nil
    then show ?case by (simp add: L_Nil quiet_def)
  next
    case (Cons f files)
    show ?case
    proof (cases "parseMetadataFile w f")
      case (Inl e)
      then show ?thesis using Cons.prems by simp
    next
      case (Inr r)
      show ?thesis
      proof (cases r)
        case None
        then have "parseAllMetadataFiles_loop w files acc = Inr m" using Cons.prems Inr by simp
        then have ih: "map_of m k = Some md \<longleftrightarrow> L files \<or> (map_of acc k = Some md \<and> quiet files)"
          by (rule Cons.IH)
        have "\<And>x. \<not> Y f x" using Inr None by (simp add: Y_def)
        then show ?thesis using ih by (simp add: L_Cons quiet_Cons)
      next
        case (Some md0)
        obtain n where n: "extractPluginName_untyped (packagePath md0) = Inr n"
          using Cons.prems Inr Some
          by (cases "extractPluginName_untyped (packagePath md0)") auto
        then have "parseAllMetadataFiles_loop w files (AList.update n md0 acc) = Inr m"
          using Cons.prems Inr Some by simp
        then have ih: "map_of m k = Some md \<longleftrightarrow>
            L files \<or> (map_of (AList.update n md0 acc) k = Some md \<and> quiet files)"
          by (rule Cons.IH)
        have y: "\<And>x. Y f x \<longleftrightarrow> x = md0 \<and> n = k" using Inr Some n by (auto simp: Y_def)
        show ?thesis using ih by (auto simp: L_Cons quiet_Cons y update_conv')
      qed
    qed
  qed
  show ?thesis using main unfolding L_def quiet_def Y_def by simp
qed



lemma shouldInjectPluginMetadata_iff:
  "shouldInjectPluginMetadata w \<longleftrightarrow>
     \<not> ((\<exists>v. env_RHDH_SKIP_PLUGIN_METADATA_INJECTION w = Some v \<and> v \<noteq> []) \<or>
        (\<exists>j. env_JOB_NAME w = Some j \<and> js_includes j (js ''periodic-'')))"
proof -
  have "\<not> js_includes [] (js ''periodic-'')" by (simp add: js_def)
  then show ?thesis
    by (auto simp: shouldInjectPluginMetadata_def truthy_def or_else_def Let_def
        split: option.splits)
qed

lemma parseAllMetadataFiles_returns:
  "(\<exists>m. parseAllMetadataFiles w d = Inr m) \<longleftrightarrow>
   (\<forall>f\<in>set (glob w (path_join w d (js ''*.yaml''))). \<forall>md.
      parseMetadataFile w f = Inr (Some md) \<longrightarrow> (\<exists>s. packagePath md = JStr s))"
  by (simp add: parseAllMetadataFiles_def Let_def loop_returns)

text \<open>
  With gating enabled \<^verbatim>\<open>generateDynamicPluginsConfigFromMetadata\<close> raises in three
  situations: no directory, an empty index, and a scan that raised.
\<close>

lemma generate_fails_iff:
  assumes "shouldInjectPluginMetadata w"
    and "resolved = path_resolve w (metadataPath_or_default metadataPath)"
  shows "(\<exists>e. generateDynamicPluginsConfigFromMetadata w metadataPath = Inl e) \<longleftrightarrow>
           \<not> (fs_existsSync w resolved \<and> fs_isDirectory w resolved) \<or>
           parseAllMetadataFiles w resolved = Inr [] \<or>
           (\<exists>e. parseAllMetadataFiles w resolved = Inl e)"
proof (cases "fs_existsSync w resolved \<and> fs_isDirectory w resolved")
  case False
  then have "getMetadataDirectory w (Some (metadataPath_or_default metadataPath)) = None"
    using assms(2) by (auto simp: getMetadataDirectory_def metadataPath_or_default_def Let_def)
  then show ?thesis
    using assms False by (simp add: generateDynamicPluginsConfigFromMetadata_def)
next
  case True
  then have dir: "getMetadataDirectory w (Some (metadataPath_or_default metadataPath)) = Some resolved"
    using assms(2) by (auto simp: getMetadataDirectory_def metadataPath_or_default_def Let_def)
  show ?thesis
    using assms(1) True dir
    by (cases "parseAllMetadataFiles w resolved")
       (simp_all add: generateDynamicPluginsConfigFromMetadata_def)
qed

section \<open>Properties of injection\<close>

lemma map_result_all:
  assumes "\<And>x. x \<in> set xs \<Longrightarrow> \<exists>y. f x = Inr y"
  shows "\<exists>ys. map_result f xs = Inr ys \<and> length ys = length xs \<and>
              (\<forall>i<length xs. f (xs ! i) = Inr (ys ! i))"
  using assms
proof (induction xs)
  case Nil
  show ?case by simp
next
  case (Cons x xs)
  obtain y where y: "f x = Inr y" using Cons.prems by auto
  obtain ys where ys: "map_result f xs = Inr ys" "length ys = length xs"
      "\<forall>i<length xs. f (xs ! i) = Inr (ys ! i)"
    using Cons.IH Cons.prems by auto
  have "\<forall>i<length (x # xs). f ((x # xs) ! i) = Inr ((y # ys) ! i)"
    using y ys(3) by (auto simp: nth_Cons split: nat.splits)
  then show ?case using y ys(1,2) by simp
qed

lemma augmentPlugin_returns: "\<exists>q. augmentPlugin metadataMap plugin = Inr q"
proof -
  obtain n where "extractPluginName (package plugin) = Inr n"
    using extractPluginName_returns by blast
  then show ?thesis by (simp add: augmentPlugin_def Let_def split: option.splits)
qed

lemma injectMetadataConfig_plugins:
  assumes "plugins doc = Some ps"
  shows "\<exists>ps'. injectMetadataConfig doc metadataMap = Inr (doc\<lparr>plugins := Some ps'\<rparr>) \<and>
           length ps' = length ps \<and>
           (\<forall>i<length ps. augmentPlugin metadataMap (ps ! i) = Inr (ps' ! i))"
proof -
  obtain ps' where "map_result (augmentPlugin metadataMap) ps = Inr ps'" "length ps' = length ps"
      "\<forall>i<length ps. augmentPlugin metadataMap (ps ! i) = Inr (ps' ! i)"
    using map_result_all [of ps "augmentPlugin metadataMap"] augmentPlugin_returns by blast
  moreover from this(1) have "injectMetadataConfig doc metadataMap = Inr (doc\<lparr>plugins := Some ps'\<rparr>)"
    using assms by (simp add: injectMetadataConfig_def)
  ultimately show ?thesis by blast
qed

section \<open>The example inputs, evaluated\<close>

lemmas example_defs =
  example_world_def example_crd_def example_config_def example_plugins_def example_metadata_def
  example_record_a_def example_record_d_def example_record_e_def example_record_n_def
  example_world_malformed_def

lemmas loader_defs =
  parseAllMetadataFiles_def parseMetadataFile_def parseMetadataFile_try_def
  getMetadataDirectory_def metadataPath_or_default_def DEFAULT_METADATA_PATH_def
  shouldInjectPluginMetadata_def truthy_def or_else_def first_elem_def
  js_not_def opt_prop_def opt_index0_def value_or_empty_def extractPluginName_untyped_def

lemma example_parseAll:
  "parseAllMetadataFiles example_world (js ''/work/metadata'') =
     Inr [(js ''tech-radar'', example_record_d), (js ''empty'', example_record_e)]"
  by (simp add: loader_defs example_defs extract_defs js_chars)

lemma example_parse_a:
  "parseMetadataFile example_world (js ''/work/metadata/a.yaml'') = Inr (Some example_record_a)"
  by (simp add: loader_defs example_defs js_chars)

lemma example_parse_b:
  "parseMetadataFile example_world (js ''/work/metadata/b.yaml'') = Inr None"
  by (simp add: loader_defs example_defs js_chars)

lemma example_parse_c:
  "parseMetadataFile example_world (js ''/work/metadata/c.yaml'') = Inr None"
  by (simp add: loader_defs example_defs js_chars)

lemma example_parse_d:
  "parseMetadataFile example_world (js ''/work/metadata/d.yaml'') = Inr (Some example_record_d)"
  by (simp add: loader_defs example_defs js_chars)

lemma example_parse_e:
  "parseMetadataFile example_world (js ''/work/metadata/e.yaml'') = Inr (Some example_record_e)"
  by (simp add: loader_defs example_defs js_chars)

lemma example_parse_n:
  "parseMetadataFile example_world (js ''/work/metadata/n.yaml'') = Inr (Some example_record_n)"
  by (simp add: loader_defs example_defs js_chars)

section \<open>Claims about injection\<close>

text \<open>
  C1. For a plugins document with a plugins list \<open>ps\<close> and a metadata index, take an
  entry \<open>ps ! i\<close> whose canonical identifier \<open>n\<close> has the record \<open>md\<close> in the index.
  \<^verbatim>\<open>injectMetadataConfig\<close> returns a document whose entry \<open>i\<close> has for its
  \<^verbatim>\<open>pluginConfig\<close> the deep merge of the record's configuration (the base) and the
  entry's own \<^verbatim>\<open>pluginConfig\<close>, or the empty mapping when it has none (the override).
  In the merged mapping the user's value wins at every depth: whatever non-mapping value
  the user's configuration holds at a path of keys, the merged configuration holds at the
  same path. Key by key: a key of one side only keeps its value; where both sides hold a
  mapping the two are merged recursively; where one side holds a non-mapping value the
  user's value stands as it is. The deep merge is the one modelled from the spec.
\<close>

theorem injectMetadataConfig_merges:
  assumes "plugins doc = Some ps" and "i < length ps"
    and "extractPluginName (package (ps ! i)) = Inr n"
    and "map_of metadataMap n = Some md"
    and "user = (case pluginConfig (ps ! i) of None \<Rightarrow> [] | Some c \<Rightarrow> c)"
    and "merged = deepMerge (md_pluginConfig md) user"
  shows "\<exists>ps'. injectMetadataConfig doc metadataMap = Inr (doc\<lparr>plugins := Some ps'\<rparr>) \<and>
           length ps' = length ps \<and>
           pluginConfig (ps' ! i) = Some merged \<and>
           (\<forall>path v. lookup_path user path = Some v \<and> \<not> is_mapping v
                      \<longrightarrow> lookup_path merged path = Some v) \<and>
           (\<forall>k. map_of user k = None \<longrightarrow> map_of merged k = map_of (md_pluginConfig md) k) \<and>
           (\<forall>k. map_of (md_pluginConfig md) k = None \<longrightarrow> map_of merged k = map_of user k) \<and>
           (\<forall>k b u. map_of (md_pluginConfig md) k = Some (JObj b) \<and> map_of user k = Some (JObj u)
                      \<longrightarrow> map_of merged k = Some (JObj (deepMerge b u))) \<and>
           (\<forall>k b u. map_of (md_pluginConfig md) k = Some b \<and> map_of user k = Some u \<and>
                      \<not> (is_mapping b \<and> is_mapping u)
                      \<longrightarrow> map_of merged k = Some u)"
proof -
  obtain ps' where ps': "injectMetadataConfig doc metadataMap = Inr (doc\<lparr>plugins := Some ps'\<rparr>)"
      "length ps' = length ps"
      "\<forall>i<length ps. augmentPlugin metadataMap (ps ! i) = Inr (ps' ! i)"
    using injectMetadataConfig_plugins [OF assms(1)] by blast
  have "augmentPlugin metadataMap (ps ! i) = Inr ((ps ! i)\<lparr>pluginConfig := Some merged\<rparr>)"
    using assms(3-6) by (simp add: augmentPlugin_def)
  then have "ps' ! i = (ps ! i)\<lparr>pluginConfig := Some merged\<rparr>"
    using ps'(3) assms(2) by simp
  then have a: "pluginConfig (ps' ! i) = Some merged" by simp
  have b: "\<forall>path v. lookup_path user path = Some v \<and> \<not> is_mapping v
                      \<longrightarrow> lookup_path merged path = Some v"
    unfolding assms(6) using lookup_path_deepMerge by blast
  have c: "\<forall>k. map_of user k = None \<longrightarrow> map_of merged k = map_of (md_pluginConfig md) k"
    unfolding assms(6) by (simp only: map_of_deepMerge) (simp split: option.splits)
  have d: "\<forall>k. map_of (md_pluginConfig md) k = None \<longrightarrow> map_of merged k = map_of user k"
    unfolding assms(6) by (simp only: map_of_deepMerge) simp
  have e: "\<forall>k b u. map_of (md_pluginConfig md) k = Some (JObj b) \<and> map_of user k = Some (JObj u)
                      \<longrightarrow> map_of merged k = Some (JObj (deepMerge b u))"
    unfolding assms(6) by (simp only: map_of_deepMerge) simp
  have f: "\<forall>k b u. map_of (md_pluginConfig md) k = Some b \<and> map_of user k = Some u \<and>
                      \<not> (is_mapping b \<and> is_mapping u)
                      \<longrightarrow> map_of merged k = Some u"
    unfolding assms(6)
    by (simp only: map_of_deepMerge) (auto simp: mergeValue_non_mapping mergeValue_non_mapping_base)
  show ?thesis using ps'(1,2) a b c d e f by blast
qed

theorem injectMetadataConfig_merges_witness:
  "\<exists>ps'. injectMetadataConfig example_config example_index
            = Inr (example_config\<lparr>plugins := Some ps'\<rparr>) \<and>
         length ps' = 2 \<and>
         pluginConfig (ps' ! 0) = Some [(js ''a'', JObj [(js ''x'', JNum 1), (js ''y'', JNum 99)])]"
proof -
  let ?user = "[(js ''a'', JObj [(js ''y'', JNum 99)])]"
  have h1: "plugins example_config = Some example_plugins" by (simp add: example_config_def)
  have h2: "0 < length example_plugins" by (simp add: example_plugins_def)
  have h3: "extractPluginName (package (example_plugins ! 0)) = Inr (js ''tech-radar'')"
    by (simp add: example_plugins_def extract_defs js_chars)
  have h4: "map_of example_index (js ''tech-radar'') = Some example_metadata"
    by (simp add: example_index_def)
  have h5: "?user = (case pluginConfig (example_plugins ! 0) of None \<Rightarrow> [] | Some c \<Rightarrow> c)"
    by (simp add: example_plugins_def)
  have h6: "[(js ''a'', JObj [(js ''x'', JNum 1), (js ''y'', JNum 99)])]
              = deepMerge (md_pluginConfig example_metadata) ?user"
    by (simp add: example_metadata_def deepMerge.simps js_def)
  have l: "length example_plugins = 2" by (simp add: example_plugins_def)
  show ?thesis
    using injectMetadataConfig_merges [OF h1 h2 h3 h4 h5 h6] unfolding l
    by blast
qed

text \<open>
  C2. \<^verbatim>\<open>injectMetadataConfig\<close> changes nothing but the \<^verbatim>\<open>pluginConfig\<close> of matched
  entries. A document without a plugins list is returned as it is, with no error.
  Otherwise the result is the document with a new plugins list of the same length, every
  other field of the document untouched; entry \<open>i\<close> of the new list has the
  \<^verbatim>\<open>package\<close>, \<^verbatim>\<open>disabled\<close> and remaining fields of entry \<open>i\<close> of the old list
  (putting the old \<^verbatim>\<open>pluginConfig\<close> back gives the old entry), and an entry whose
  identifier the index does not know is the old entry, an absent \<^verbatim>\<open>pluginConfig\<close>
  included.
\<close>

theorem injectMetadataConfig_frame:
  "(plugins doc = None \<longrightarrow> injectMetadataConfig doc metadataMap = Inr doc) \<and>
   (\<forall>ps. plugins doc = Some ps \<longrightarrow>
      (\<exists>ps'. injectMetadataConfig doc metadataMap = Inr (doc\<lparr>plugins := Some ps'\<rparr>) \<and>
         length ps' = length ps \<and>
         (\<forall>i<length ps.
            package (ps' ! i) = package (ps ! i) \<and>
            disabled (ps' ! i) = disabled (ps ! i) \<and>
            entry_other (ps' ! i) = entry_other (ps ! i) \<and>
            (ps' ! i)\<lparr>pluginConfig := pluginConfig (ps ! i)\<rparr> = ps ! i \<and>
            ((\<exists>n. extractPluginName (package (ps ! i)) = Inr n \<and> map_of metadataMap n = None)
               \<longrightarrow> ps' ! i = ps ! i))))"
proof -
  have none: "injectMetadataConfig doc metadataMap = Inr doc" if "plugins doc = None"
    using that by (simp add: injectMetadataConfig_def)
  have some: "\<exists>ps'. injectMetadataConfig doc metadataMap = Inr (doc\<lparr>plugins := Some ps'\<rparr>) \<and>
         length ps' = length ps \<and>
         (\<forall>i<length ps.
            package (ps' ! i) = package (ps ! i) \<and>
            disabled (ps' ! i) = disabled (ps ! i) \<and>
            entry_other (ps' ! i) = entry_other (ps ! i) \<and>
            (ps' ! i)\<lparr>pluginConfig := pluginConfig (ps ! i)\<rparr> = ps ! i \<and>
            ((\<exists>n. extractPluginName (package (ps ! i)) = Inr n \<and> map_of metadataMap n = None)
               \<longrightarrow> ps' ! i = ps ! i))"
    if h: "plugins doc = Some ps" for ps
  proof -
    obtain ps' where ps': "injectMetadataConfig doc metadataMap = Inr (doc\<lparr>plugins := Some ps'\<rparr>)"
        "length ps' = length ps"
        "\<forall>i<length ps. augmentPlugin metadataMap (ps ! i) = Inr (ps' ! i)"
      using injectMetadataConfig_plugins [OF h] by blast
    have "package (ps' ! i) = package (ps ! i) \<and>
            disabled (ps' ! i) = disabled (ps ! i) \<and>
            entry_other (ps' ! i) = entry_other (ps ! i) \<and>
            (ps' ! i)\<lparr>pluginConfig := pluginConfig (ps ! i)\<rparr> = ps ! i \<and>
            ((\<exists>n. extractPluginName (package (ps ! i)) = Inr n \<and> map_of metadataMap n = None)
               \<longrightarrow> ps' ! i = ps ! i)" if i: "i < length ps" for i
    proof -
      have aug: "augmentPlugin metadataMap (ps ! i) = Inr (ps' ! i)" using ps'(3) i by simp
      obtain n where n: "extractPluginName (package (ps ! i)) = Inr n"
        using extractPluginName_returns by blast
      show ?thesis
      proof (cases "map_of metadataMap n")
        case None
        then have "ps' ! i = ps ! i" using aug n by (simp add: augmentPlugin_def)
        then show ?thesis by simp
      next
        case (Some md)
        then have "ps' ! i = (ps ! i)\<lparr>pluginConfig :=
            Some (deepMerge (md_pluginConfig md)
                    (case pluginConfig (ps ! i) of None \<Rightarrow> [] | Some c \<Rightarrow> c))\<rparr>"
          using aug [symmetric] n by (simp add: augmentPlugin_def Let_def)
        then show ?thesis using n Some by simp
      qed
    qed
    then show ?thesis using ps'(1,2) by blast
  qed
  show ?thesis using none some by blast
qed

theorem injectMetadataConfig_frame_witness:
  "(\<exists>ps'. injectMetadataConfig example_config example_index
             = Inr (example_config\<lparr>plugins := Some ps'\<rparr>) \<and>
          length ps' = 2 \<and>
          package (ps' ! 0) = js ''oci://quay.io/rhdh/tech-radar:1.0'' \<and>
          ps' ! 1 = example_plugins ! 1) \<and>
   injectMetadataConfig (example_config\<lparr>plugins := None\<rparr>) example_index
     = Inr (example_config\<lparr>plugins := None\<rparr>)"
proof -
  have h1: "plugins example_config = Some example_plugins" by (simp add: example_config_def)
  have l: "length example_plugins = 2" by (simp add: example_plugins_def)
  have n: "extractPluginName (package (example_plugins ! 1)) = Inr (js ''other'')"
    by (simp add: example_plugins_def extract_defs js_chars)
  have u: "map_of example_index (js ''other'') = None"
    by (simp add: example_index_def js_def)
  have p0: "package (example_plugins ! 0) = js ''oci://quay.io/rhdh/tech-radar:1.0''"
    by (simp add: example_plugins_def)
  obtain ps' where ps': "injectMetadataConfig example_config example_index
             = Inr (example_config\<lparr>plugins := Some ps'\<rparr>)"
      "length ps' = length example_plugins"
      "\<forall>i<length example_plugins.
            package (ps' ! i) = package (example_plugins ! i) \<and>
            disabled (ps' ! i) = disabled (example_plugins ! i) \<and>
            entry_other (ps' ! i) = entry_other (example_plugins ! i) \<and>
            (ps' ! i)\<lparr>pluginConfig := pluginConfig (example_plugins ! i)\<rparr> = example_plugins ! i \<and>
            ((\<exists>n. extractPluginName (package (example_plugins ! i)) = Inr n \<and>
                  map_of example_index n = None)
               \<longrightarrow> ps' ! i = example_plugins ! i)"
    using injectMetadataConfig_frame [of example_config example_index] h1 by blast
  have "package (ps' ! 0) = js ''oci://quay.io/rhdh/tech-radar:1.0''"
    using ps'(3) l p0 by simp
  moreover have "ps' ! 1 = example_plugins ! 1"
    using ps'(3) l n u by auto
  moreover have "injectMetadataConfig (example_config\<lparr>plugins := None\<rparr>) example_index
     = Inr (example_config\<lparr>plugins := None\<rparr>)"
    using injectMetadataConfig_frame [of "example_config\<lparr>plugins := None\<rparr>" example_index]
    by simp
  ultimately show ?thesis using ps'(1,2) l by auto
qed

section \<open>Claims about the gating policy\<close>

text \<open>
  C3. The claim: with gating disabled both entry points return their input unchanged, an
  absent input included. \<^verbatim>\<open>generateDynamicPluginsConfigFromMetadata\<close> takes no document;
  with gating disabled it returns a new document with an empty plugins list,
  \<^verbatim>\<open>{ plugins: [] }\<close>, not an absent value. And a variable
  \<^verbatim>\<open>RHDH_SKIP_PLUGIN_METADATA_INJECTION\<close> that is set to the empty string does not
  disable gating: the source tests its truthiness.
\<close>

theorem gating_disabled_counterexample:
  "generateDynamicPluginsConfigFromMetadata
     (example_world\<lparr>env_JOB_NAME := Some (js ''periodic-nightly-1'')\<rparr>) (Some (js ''/no/such/dir''))
     = Inr \<lparr>plugins = Some [], includes_field = None, config_other = []\<rparr> \<and>
   loadAndInjectPluginMetadata
     (example_world\<lparr>env_RHDH_SKIP_PLUGIN_METADATA_INJECTION := Some [],
                    fs_existsSync := \<lambda>p. False\<rparr>) example_config (Some (js ''metadata''))
     = Inl (Error (js ''[PluginMetadata] PR build requires metadata directory but not found at: /work/metadata''))"
  by (simp add: generateDynamicPluginsConfigFromMetadata_def loadAndInjectPluginMetadata_def
      loader_defs example_world_def js_def)

text \<open>
  C3, as amended. When \<^verbatim>\<open>RHDH_SKIP_PLUGIN_METADATA_INJECTION\<close> is set to a non-empty
  value, or \<^verbatim>\<open>JOB_NAME\<close> contains \<^verbatim>\<open>periodic-\<close>, then whatever the metadata path and
  the file system hold, \<^verbatim>\<open>loadAndInjectPluginMetadata\<close> returns its document unchanged
  and \<^verbatim>\<open>generateDynamicPluginsConfigFromMetadata\<close> returns the document with an empty
  plugins list.
\<close>

theorem gating_disabled_passthrough:
  assumes "(\<exists>v. env_RHDH_SKIP_PLUGIN_METADATA_INJECTION w = Some v \<and> v \<noteq> []) \<or>
           (\<exists>j. env_JOB_NAME w = Some j \<and> js_includes j (js ''periodic-''))"
  shows "loadAndInjectPluginMetadata w cfg metadataPath = Inr cfg \<and>
         generateDynamicPluginsConfigFromMetadata w metadataPath
           = Inr \<lparr>plugins = Some [], includes_field = None, config_other = []\<rparr>"
proof -
  have "\<not> shouldInjectPluginMetadata w"
    using assms by (simp only: shouldInjectPluginMetadata_iff) simp
  then show ?thesis
    by (simp add: loadAndInjectPluginMetadata_def generateDynamicPluginsConfigFromMetadata_def)
qed

theorem gating_disabled_passthrough_witness:
  "loadAndInjectPluginMetadata
     (example_world\<lparr>env_JOB_NAME := Some (js ''periodic-nightly-1'')\<rparr>) example_config None
     = Inr example_config \<and>
   loadAndInjectPluginMetadata
     (example_world\<lparr>env_RHDH_SKIP_PLUGIN_METADATA_INJECTION := Some (js ''true'')\<rparr>)
     example_config (Some (js ''/no/such/dir''))
     = Inr example_config"
proof -
  let ?w = "example_world\<lparr>env_JOB_NAME := Some (js ''periodic-nightly-1'')\<rparr>"
  let ?v = "example_world\<lparr>env_RHDH_SKIP_PLUGIN_METADATA_INJECTION := Some (js ''true'')\<rparr>"
  have "js_includes (js ''periodic-nightly-1'') (js ''periodic-'')" by (simp add: js_def)
  then have hw: "(\<exists>v. env_RHDH_SKIP_PLUGIN_METADATA_INJECTION ?w = Some v \<and> v \<noteq> []) \<or>
           (\<exists>j. env_JOB_NAME ?w = Some j \<and> js_includes j (js ''periodic-''))"
    by simp
  have hv: "(\<exists>v. env_RHDH_SKIP_PLUGIN_METADATA_INJECTION ?v = Some v \<and> v \<noteq> []) \<or>
           (\<exists>j. env_JOB_NAME ?v = Some j \<and> js_includes j (js ''periodic-''))"
    by (simp add: js_def)
  show ?thesis
    using gating_disabled_passthrough [OF hw, of example_config None]
      gating_disabled_passthrough [OF hv, of example_config "Some (js ''/no/such/dir'')"]
    by simp
qed

section \<open>Claims about canonical identifier extraction\<close>

text \<open>
  C4. The claim: for every reference with a \<^verbatim>\<open>!\<close>, everything from the \<^verbatim>\<open>!\<close> on is
  discarded, the result comes from the prefix alone and never contains the alias.
  The code matches the pattern against the prefix, but falls back to the whole original
  reference, alias included, when the prefix gives no match:
  \<^verbatim>\<open>extractPluginName("plugin!my-alias")\<close> is \<^verbatim>\<open>"plugin!my-alias"\<close>.
\<close>

theorem extractPluginName_alias_counterexample:
  "extractPluginName (js ''plugin!my-alias'') = Inr (js ''plugin!my-alias'')"
  by (simp add: extract_defs js_chars)

text \<open>
  C4, as amended. For a reference \<open>p @ bang # a\<close> whose prefix \<open>p\<close> has no \<^verbatim>\<open>!\<close>:
  when the prefix has a name the pattern extracts (\<open>extractPluginName p\<close> is not \<open>p\<close>
  itself), the result is \<open>extractPluginName p\<close>, whatever the alias \<open>a\<close> is, and it
  contains no \<^verbatim>\<open>!\<close>; when the prefix has none, the whole reference is returned.
\<close>

theorem extractPluginName_alias:
  assumes "bang \<notin> set p"
  shows "(extractPluginName p \<noteq> Inr p \<longrightarrow>
            extractPluginName (p @ bang # a) = extractPluginName p \<and>
            (\<forall>n. extractPluginName p = Inr n \<longrightarrow> bang \<notin> set n)) \<and>
         (extractPluginName p = Inr p \<longrightarrow>
            extractPluginName (p @ bang # a) = Inr (p @ bang # a))"
proof -
  have tp: "takeWhile (\<lambda>c. c \<noteq> bang) p = p" using assms by (rule takeWhile_absent)
  have ta: "takeWhile (\<lambda>c. c \<noteq> bang) (p @ bang # a) = p"
    using assms by (rule takeWhile_until)
  show ?thesis
  proof (cases "regex_match p")
    case None
    then show ?thesis by (simp add: extractPluginName_eq tp ta)
  next
    case (Some g)
    then have "length g < length p" "set g \<subseteq> set p" using regex_match_Some by blast+
    then have "g \<noteq> p" "bang \<notin> set g" using assms by auto
    then show ?thesis using Some by (simp add: extractPluginName_eq tp ta)
  qed
qed

theorem extractPluginName_alias_witness:
  "extractPluginName (js ''oci://quay.io/rhdh/plugin@sha256:abc!my-alias'') = Inr (js ''plugin'') \<and>
   extractPluginName (js ''plugin!my-alias'') = Inr (js ''plugin!my-alias'')"
proof -
  let ?p = "js ''oci://quay.io/rhdh/plugin@sha256:abc''"
  let ?q = "js ''plugin''"
  let ?a = "js ''my-alias''"
  have bp: "bang \<notin> set ?p" and bq: "bang \<notin> set ?q" by (simp_all add: js_chars)
  have ep: "extractPluginName ?p = Inr (js ''plugin'')"
    and eq: "extractPluginName ?q = Inr ?q"
    by (simp_all add: extract_defs js_chars)
  have np: "extractPluginName ?p \<noteq> Inr ?p" unfolding ep by (simp add: js_chars)
  have "extractPluginName (?p @ bang # ?a) = Inr (js ''plugin'')"
    using extractPluginName_alias [OF bp, of ?a] np ep by simp
  moreover have "extractPluginName (?q @ bang # ?a) = Inr (?q @ bang # ?a)"
    using extractPluginName_alias [OF bq, of ?a] eq by simp
  moreover have "?p @ bang # ?a = js ''oci://quay.io/rhdh/plugin@sha256:abc!my-alias''"
    and "?q @ bang # ?a = js ''plugin!my-alias''"
    by (simp_all add: js_chars)
  ultimately show ?thesis by simp
qed

text \<open>
  C5. The claim: for every reference \<open>r\<close> without \<^verbatim>\<open>!\<close> the result is the last
  \<^verbatim>\<open>/\<close>-delimited segment of \<open>r\<close> with its \<^verbatim>\<open>:tag\<close> or \<^verbatim>\<open>@digest\<close> suffix stripped.
  A reference without \<^verbatim>\<open>/\<close> is returned whole, suffix included; and the pattern takes
  the first \<^verbatim>\<open>/\<close> at which it matches, which is not the final one when an earlier
  segment is followed by \<^verbatim>\<open>:\<close> or \<^verbatim>\<open>@\<close>, as a registry with a port is.
\<close>

theorem extractPluginName_last_segment_counterexample:
  "extractPluginName (js ''plugin:1.0'') = Inr (js ''plugin:1.0'') \<and>
   lastSegmentStripped (js ''plugin:1.0'') = js ''plugin'' \<and>
   extractPluginName (js ''oci://localhost:5000/rhdh/plugin:1.0'') = Inr (js ''localhost'') \<and>
   lastSegmentStripped (js ''oci://localhost:5000/rhdh/plugin:1.0'') = js ''plugin''"
  by (simp add: extract_defs js_chars)

text \<open>
  C5, as amended. Let \<open>r\<close> have no \<^verbatim>\<open>!\<close> and let \<open>r = p @ slash # seg\<close> with no
  \<^verbatim>\<open>/\<close> in \<open>seg\<close>, so that \<open>seg\<close> is the last segment. If the segment without its
  suffix is not empty, the suffix holds no line terminator, and in \<open>p\<close> no \<^verbatim>\<open>/\<close> is
  followed by a non-empty name and then \<^verbatim>\<open>:\<close> or \<^verbatim>\<open>@\<close>, then the result is the last
  segment with the suffix stripped.
\<close>

theorem extractPluginName_last_segment:
  assumes "bang \<notin> set r"
    and "r = p @ slash # seg" and "slash \<notin> set seg"
    and "stripSuffix seg \<noteq> []"
    and "list_all (\<lambda>d. \<not> line_terminator d) (drop (length (stripSuffix seg)) seg)"
    and "\<not> tagged_segment p"
  shows "extractPluginName r = Inr (lastSegmentStripped r)"
proof -
  have tw: "takeWhile (\<lambda>c. c \<noteq> bang) r = r" using assms(1) by (rule takeWhile_absent)
  have nm: "takeWhile name_char seg \<noteq> []" using assms(3,4) by (simp add: stripSuffix_name)
  have "dropWhile name_char seg = drop (length (stripSuffix seg)) seg"
    using assms(3) by (simp add: stripSuffix_name dropWhile_eq_drop)
  then have "list_all (\<lambda>d. \<not> line_terminator d) (dropWhile name_char seg)"
    using assms(5) by simp
  then have "tail_ok (dropWhile name_char seg)"
    using assms(3) by (rule tail_ok_dropWhile [rotated])
  then have "regex_match r = Some (takeWhile name_char seg)"
    using assms(2,3,6) nm by (simp add: regex_match_last_segment match_at_Cons)
  moreover have "lastSegmentStripped r = takeWhile name_char seg"
    using assms(2,3)
    by (simp add: lastSegmentStripped_def lastSegment_def last_js_split stripSuffix_name)
  ultimately show ?thesis by (simp add: extractPluginName_eq tw)
qed

theorem extractPluginName_last_segment_witness:
  "extractPluginName (js ''oci://quay.io/rhdh/plugin@sha256:abc'')
     = Inr (lastSegmentStripped (js ''oci://quay.io/rhdh/plugin@sha256:abc'')) \<and>
   lastSegmentStripped (js ''oci://quay.io/rhdh/plugin@sha256:abc'') = js ''plugin''"
proof -
  let ?r = "js ''oci://quay.io/rhdh/plugin@sha256:abc''"
  let ?p = "js ''oci://quay.io/rhdh''"
  let ?seg = "js ''plugin@sha256:abc''"
  have h1: "bang \<notin> set ?r" by (simp add: js_chars)
  have h2: "?r = ?p @ slash # ?seg" by (simp add: js_chars)
  have h3: "slash \<notin> set ?seg" by (simp add: js_chars)
  have h4: "stripSuffix ?seg \<noteq> []" by (simp add: stripSuffix_def js_chars)
  have h5: "list_all (\<lambda>d. \<not> line_terminator d) (drop (length (stripSuffix ?seg)) ?seg)"
    by (simp add: stripSuffix_def js_chars)
  have h6: "\<not> tagged_segment ?p" by (simp add: js_chars)
  have "extractPluginName ?r = Inr (lastSegmentStripped ?r)"
    using extractPluginName_last_segment [OF h1 h2 h3 h4 h5 h6] .
  moreover have "lastSegmentStripped ?r = js ''plugin''"
    by (simp add: extract_defs js_chars)
  ultimately show ?thesis by simp
qed

text \<open>
  C6. The claim: \<^verbatim>\<open>extractPluginName\<close> is total, the empty string gives the empty
  string, a string ending in \<^verbatim>\<open>/\<close> gives the original reference, a string without
  \<^verbatim>\<open>/\<close> gives the input. The third part fails: the \<^verbatim>\<open>!\<close> is cut before the pattern
  runs, and the pattern matches at an earlier segment that is followed by \<^verbatim>\<open>:\<close> or
  \<^verbatim>\<open>@\<close>.
\<close>

theorem extractPluginName_total_counterexample:
  "extractPluginName (js ''rhdh/plugin!alias/'') = Inr (js ''plugin'') \<and>
   extractPluginName (js ''oci://localhost:5000/rhdh/'') = Inr (js ''localhost'')"
  by (simp add: extract_defs js_chars)

text \<open>
  C6, as amended. \<^verbatim>\<open>extractPluginName\<close> returns a string for every input and never
  raises; the empty string gives the empty string; a string without \<^verbatim>\<open>/\<close> gives the
  input unchanged; a string ending in \<^verbatim>\<open>/\<close> gives the original reference when it has
  no \<^verbatim>\<open>!\<close> and no \<^verbatim>\<open>/\<close> in it is followed by a non-empty name and then \<^verbatim>\<open>:\<close> or
  \<^verbatim>\<open>@\<close>.
\<close>

theorem extractPluginName_total:
  "(\<exists>s. extractPluginName r = Inr s) \<and>
   extractPluginName [] = Inr [] \<and>
   (slash \<notin> set r \<longrightarrow> extractPluginName r = Inr r) \<and>
   (r \<noteq> [] \<and> last r = slash \<and> bang \<notin> set r \<and> \<not> tagged_segment r
      \<longrightarrow> extractPluginName r = Inr r)"
proof -
  have a: "\<exists>s. extractPluginName r = Inr s" by (simp add: extractPluginName_eq)
  have b: "extractPluginName [] = Inr []" by (simp add: extractPluginName_eq)
  have c: "extractPluginName r = Inr r" if "slash \<notin> set r"
  proof -
    have "slash \<notin> set (takeWhile (\<lambda>c. c \<noteq> bang) r)"
      using that set_takeWhileD by metis
    then show ?thesis by (simp add: extractPluginName_eq regex_match_no_slash)
  qed
  have d: "extractPluginName r = Inr r"
    if h: "r \<noteq> []" "last r = slash" "bang \<notin> set r" "\<not> tagged_segment r"
  proof -
    have tw: "takeWhile (\<lambda>c. c \<noteq> bang) r = r" using h(3) by (rule takeWhile_absent)
    obtain p where p: "r = p @ [slash]" using h(1,2) by (metis append_butlast_last_id)
    have "\<not> tagged_segment p" using h(4) p tagged_segment_append by blast
    then have "regex_match r = None"
      using p regex_match_last_segment [of p "[]"] by (simp add: match_at_Cons)
    then show ?thesis by (simp add: extractPluginName_eq tw)
  qed
  show ?thesis using a b c d by blast
qed

theorem extractPluginName_total_witness:
  "extractPluginName (js ''my-plugin:1.0'') = Inr (js ''my-plugin:1.0'') \<and>
   extractPluginName (js ''oci://quay.io/rhdh/'') = Inr (js ''oci://quay.io/rhdh/'')"
proof -
  let ?r = "js ''my-plugin:1.0''"
  let ?s = "js ''oci://quay.io/rhdh/''"
  have r: "slash \<notin> set ?r" by (simp add: js_chars)
  have s: "?s \<noteq> [] \<and> last ?s = slash \<and> bang \<notin> set ?s \<and> \<not> tagged_segment ?s"
    by (simp add: js_chars)
  have "extractPluginName ?r = Inr ?r"
    using extractPluginName_total [of ?r] r by blast
  moreover have "extractPluginName ?s = Inr ?s"
    using extractPluginName_total [of ?s] s by blast
  ultimately show ?thesis by simp
qed

section \<open>Claims about generation and orchestration\<close>

text \<open>
  C7. The claim: with gating enabled, \<^verbatim>\<open>generateDynamicPluginsConfigFromMetadata\<close>
  raises in exactly two situations, a metadata directory that cannot be found and a
  directory that gives no record. There is a third. The directory of
  \<open>example_world_malformed\<close> exists and its listing is \<^verbatim>\<open>a.yaml\<close>, \<^verbatim>\<open>n.yaml\<close>;
  the first gives a record, so does the second, whose
  \<^verbatim>\<open>dynamicArtifact\<close> is the number 123, and \<^verbatim>\<open>extractPluginName\<close>, called on it outside
  the \<^verbatim>\<open>try\<close> block, raises a TypeError that the function passes on.
\<close>

theorem generate_third_failure:
  "shouldInjectPluginMetadata example_world_malformed \<and>
   path_resolve example_world_malformed (js ''metadata'') = js ''/work/metadata'' \<and>
   fs_existsSync example_world_malformed (js ''/work/metadata'') \<and>
   fs_isDirectory example_world_malformed (js ''/work/metadata'') \<and>
   glob example_world_malformed (js ''/work/metadata/*.yaml'')
     = [js ''/work/metadata/a.yaml'', js ''/work/metadata/n.yaml''] \<and>
   parseMetadataFile example_world_malformed (js ''/work/metadata/a.yaml'')
     = Inr (Some example_record_a) \<and>
   parseMetadataFile example_world_malformed (js ''/work/metadata/n.yaml'')
     = Inr (Some example_record_n) \<and>
   generateDynamicPluginsConfigFromMetadata example_world_malformed (Some (js ''metadata''))
     = Inl (TypeError (js ''packageRef.includes is not a function''))"
  by (simp add: generateDynamicPluginsConfigFromMetadata_def loader_defs example_defs
      extract_defs js_chars)

section \<open>Claims about the loader\<close>




text \<open>
  C9. Whenever \<^verbatim>\<open>parseAllMetadataFiles\<close> returns an index, every identifier occurs in
  it once, and the record of an identifier \<open>k\<close> is that of the last file of the
  directory listing that gave a record with identifier \<open>k\<close>: the index maps \<open>k\<close> to
  \<open>md\<close> exactly when the listing is \<open>pre @ f # post\<close>, the file \<open>f\<close> gives \<open>md\<close>
  with identifier \<open>k\<close>, and no file of \<open>post\<close> gives a record with identifier \<open>k\<close>.
  It returns an index exactly when every record the files of the listing give has a
  string for its \<^verbatim>\<open>dynamicArtifact\<close>.
\<close>

theorem parseAllMetadataFiles_last_wins:
  assumes "files = glob w (path_join w dir (js ''*.yaml''))"
  shows "((\<exists>m. parseAllMetadataFiles w dir = Inr m) \<longleftrightarrow>
          (\<forall>f\<in>set files. \<forall>md. parseMetadataFile w f = Inr (Some md) \<longrightarrow>
                                  (\<exists>s. packagePath md = JStr s))) \<and>
     (\<forall>m. parseAllMetadataFiles w dir = Inr m \<longrightarrow>
        distinct (map fst m) \<and>
        (\<forall>k md. map_of m k = Some md \<longleftrightarrow>
           (\<exists>pre f post. files = pre @ f # post \<and>
              parseMetadataFile w f = Inr (Some md) \<and>
              extractPluginName_untyped (packagePath md) = Inr k \<and>
              (\<forall>g\<in>set post. \<forall>md'. parseMetadataFile w g = Inr (Some md') \<longrightarrow>
                                       extractPluginName_untyped (packagePath md') \<noteq> Inr k))))"
proof -
  have ret: "(\<exists>m. parseAllMetadataFiles w dir = Inr m) \<longleftrightarrow>
          (\<forall>f\<in>set files. \<forall>md. parseMetadataFile w f = Inr (Some md) \<longrightarrow>
                                  (\<exists>s. packagePath md = JStr s))"
    unfolding assms by (rule parseAllMetadataFiles_returns)
  have last: "distinct (map fst m) \<and>
        (\<forall>k md. map_of m k = Some md \<longleftrightarrow>
           (\<exists>pre f post. files = pre @ f # post \<and>
              parseMetadataFile w f = Inr (Some md) \<and>
              extractPluginName_untyped (packagePath md) = Inr k \<and>
              (\<forall>g\<in>set post. \<forall>md'. parseMetadataFile w g = Inr (Some md') \<longrightarrow>
                                       extractPluginName_untyped (packagePath md') \<noteq> Inr k)))"
    if m: "parseAllMetadataFiles w dir = Inr m" for m
  proof -
    have loop: "parseAllMetadataFiles_loop w files [] = Inr m"
      using m assms by (simp add: parseAllMetadataFiles_def Let_def)
    have "distinct (map fst m)" using loop_distinct [OF loop] by simp
    moreover have "map_of m k = Some md \<longleftrightarrow>
           (\<exists>pre f post. files = pre @ f # post \<and>
              parseMetadataFile w f = Inr (Some md) \<and>
              extractPluginName_untyped (packagePath md) = Inr k \<and>
              (\<forall>g\<in>set post. \<forall>md'. parseMetadataFile w g = Inr (Some md') \<longrightarrow>
                                       extractPluginName_untyped (packagePath md') \<noteq> Inr k))"
      for k md
      using loop_lookup [OF loop, of k md] by simp
    ultimately show ?thesis by blast
  qed
  show ?thesis using ret last by blast
qed

theorem parseAllMetadataFiles_last_wins_witness:
  "\<exists>m. parseAllMetadataFiles example_world (js ''/work/metadata'') = Inr m \<and>
        distinct (map fst m) \<and>
        map_of m (js ''tech-radar'') = Some example_record_d"
proof -
  let ?dir = "js ''/work/metadata''"
  let ?files = "[js ''/work/metadata/a.yaml'', js ''/work/metadata/b.yaml'',
                 js ''/work/metadata/c.yaml'', js ''/work/metadata/d.yaml'',
                 js ''/work/metadata/e.yaml'']"
  let ?pre = "[js ''/work/metadata/a.yaml'', js ''/work/metadata/b.yaml'',
               js ''/work/metadata/c.yaml'']"
  let ?post = "[js ''/work/metadata/e.yaml'']"
  have files: "?files = glob example_world (path_join example_world ?dir (js ''*.yaml''))"
    by (simp add: example_world_def js_chars)
  have split: "?files = ?pre @ js ''/work/metadata/d.yaml'' # ?post" by simp
  have nd: "extractPluginName_untyped (packagePath example_record_d) = Inr (js ''tech-radar'')"
    by (simp add: example_record_d_def extractPluginName_untyped_def extract_defs js_chars)
  have ne: "extractPluginName_untyped (packagePath example_record_e) \<noteq> Inr (js ''tech-radar'')"
    by (simp add: example_record_e_def extractPluginName_untyped_def extract_defs js_chars)
  have quiet: "\<forall>g\<in>set ?post. \<forall>md'. parseMetadataFile example_world g = Inr (Some md') \<longrightarrow>
                  extractPluginName_untyped (packagePath md') \<noteq> Inr (js ''tech-radar'')"
    using example_parse_e ne by simp
  have wt: "\<forall>f\<in>set ?files. \<forall>md. parseMetadataFile example_world f = Inr (Some md) \<longrightarrow>
                                  (\<exists>s. packagePath md = JStr s)"
    using example_parse_a example_parse_b example_parse_c example_parse_d example_parse_e
    by (auto simp: example_defs)
  note inst = parseAllMetadataFiles_last_wins [OF files]
  obtain m where m: "parseAllMetadataFiles example_world ?dir = Inr m"
    using inst wt by blast
  have d: "distinct (map fst m)"
    and iff: "\<forall>k md. map_of m k = Some md \<longleftrightarrow>
        (\<exists>pre f post. ?files = pre @ f # post \<and>
           parseMetadataFile example_world f = Inr (Some md) \<and>
           extractPluginName_untyped (packagePath md) = Inr k \<and>
           (\<forall>g\<in>set post. \<forall>md'. parseMetadataFile example_world g = Inr (Some md') \<longrightarrow>
                                    extractPluginName_untyped (packagePath md') \<noteq> Inr k))"
    using inst m by blast+
  have "\<exists>pre f post. ?files = pre @ f # post \<and>
           parseMetadataFile example_world f = Inr (Some example_record_d) \<and>
           extractPluginName_untyped (packagePath example_record_d) = Inr (js ''tech-radar'') \<and>
           (\<forall>g\<in>set post. \<forall>md'. parseMetadataFile example_world g = Inr (Some md') \<longrightarrow>
                                    extractPluginName_untyped (packagePath md') \<noteq> Inr (js ''tech-radar''))"
    using split example_parse_d nd quiet by blast
  then have "map_of m (js ''tech-radar'') = Some example_record_d"
    using iff by blast
  then show ?thesis using m d by blast
qed

text \<open>
  C10. With gating enabled and the resolved metadata path an existing directory,
  \<^verbatim>\<open>loadAndInjectPluginMetadata\<close> raises an error whenever the index built from the
  directory is empty, whatever the input document holds, a populated plugins list
  included.
\<close>

theorem loadAndInject_no_records:
  assumes "shouldInjectPluginMetadata w"
    and "resolved = path_resolve w (metadataPath_or_default metadataPath)"
    and "fs_existsSync w resolved" and "fs_isDirectory w resolved"
    and "parseAllMetadataFiles w resolved = Inr []"
  shows "loadAndInjectPluginMetadata w cfg metadataPath =
           Inl (Error (js ''[PluginMetadata] PR build requires plugin metadata but no valid metadata files found in ''
                       @ resolved))"
proof -
  have "getMetadataDirectory w (Some (metadataPath_or_default metadataPath)) = Some resolved"
    using assms(2-4) by (auto simp: getMetadataDirectory_def metadataPath_or_default_def Let_def)
  then show ?thesis
    using assms(1,5) by (simp add: loadAndInjectPluginMetadata_def)
qed

theorem loadAndInject_no_records_witness:
  "plugins example_config = Some example_plugins \<and>
   loadAndInjectPluginMetadata (example_world\<lparr>glob := \<lambda>p. []\<rparr>) example_config
     (Some (js ''metadata''))
     = Inl (Error (js ''[PluginMetadata] PR build requires plugin metadata but no valid metadata files found in /work/metadata''))"
proof -
  let ?w = "example_world\<lparr>glob := \<lambda>p. []\<rparr>"
  let ?mp = "Some (js ''metadata'')"
  let ?dir = "js ''/work/metadata''"
  have g: "shouldInjectPluginMetadata ?w"
    by (simp add: loader_defs example_world_def js_def)
  have r: "?dir = path_resolve ?w (metadataPath_or_default ?mp)"
    by (simp add: loader_defs example_world_def js_def)
  have e: "fs_existsSync ?w ?dir" and d: "fs_isDirectory ?w ?dir"
    by (simp_all add: example_world_def)
  have p: "parseAllMetadataFiles ?w ?dir = Inr []"
    by (simp add: loader_defs)
  have "loadAndInjectPluginMetadata ?w example_config ?mp
     = Inl (Error (js ''[PluginMetadata] PR build requires plugin metadata but no valid metadata files found in '' @ ?dir))"
    using loadAndInject_no_records [OF g r e d p] .
  then show ?thesis by (simp add: example_config_def js_def)
qed

end
